theory Spec2Isabelle
  imports Main "HOL-Library.Word"
begin

section \<open>Strings and buffers of the platform\<close>

text \<open>
  A JavaScript string is a sequence of 16-bit code units; a Buffer is a sequence of bytes.
  \<open>startsWith\<close>, \<open>slice\<close> and \<open>length\<close> count code units.
\<close>

type_synonym code_unit = "16 word"
type_synonym js_string = "code_unit list"
type_synonym byte = "8 word"
type_synonym buffer = "byte list"

text \<open>An ASCII literal of the source, as a JavaScript string.\<close>

definition lit :: "string \<Rightarrow> js_string" where
  "lit s = map (\<lambda>c. of_nat (of_char c)) s"

definition startsWith :: "js_string \<Rightarrow> js_string \<Rightarrow> bool" where
  "startsWith s p \<longleftrightarrow> take (length p) s = p"

definition slice_from :: "nat \<Rightarrow> js_string \<Rightarrow> js_string" where
  "slice_from n s = drop n s"

subsection \<open>UTF-16 code units and code points\<close>

definition is_high :: "nat \<Rightarrow> bool" where
  "is_high u \<longleftrightarrow> 0xD800 \<le> u \<and> u \<le> 0xDBFF"

definition is_low :: "nat \<Rightarrow> bool" where
  "is_low u \<longleftrightarrow> 0xDC00 \<le> u \<and> u \<le> 0xDFFF"

definition lone :: "nat \<Rightarrow> nat" where
  "lone u = (if is_high u \<or> is_low u then 0xFFFD else u)"

text \<open>
  The code points a string denotes when it is written out as UTF-8: a high surrogate
  followed by a low one is one supplementary code point, any other surrogate is replaced
  by U+FFFD.
\<close>

fun code_points :: "js_string \<Rightarrow> nat list" where
  "code_points [] = []"
| "code_points [u] = [lone (unat u)]"
| "code_points (h # l # r) =
     (if is_high (unat h) \<and> is_low (unat l)
      then (0x10000 + (unat h - 0xD800) * 0x400 + (unat l - 0xDC00)) # code_points r
      else lone (unat h) # code_points (l # r))"

text \<open>A string is well formed when it has no unpaired surrogate.\<close>

fun well_formed :: "js_string \<Rightarrow> bool" where
  "well_formed [] = True"
| "well_formed [u] = (\<not> is_high (unat u) \<and> \<not> is_low (unat u))"
| "well_formed (h # l # r) =
     (if is_high (unat h) then is_low (unat l) \<and> well_formed r
      else \<not> is_low (unat h) \<and> well_formed (l # r))"

text \<open>The code points that are not surrogates.\<close>

definition scalar :: "nat \<Rightarrow> bool" where
  "scalar c \<longleftrightarrow> c < 0x110000 \<and> \<not> (0xD800 \<le> c \<and> c \<le> 0xDFFF)"

definition utf16_units :: "nat \<Rightarrow> js_string" where
  "utf16_units c =
     (if c < 0x10000 then [of_nat c]
      else [of_nat (0xD800 + (c - 0x10000) div 0x400),
            of_nat (0xDC00 + (c - 0x10000) mod 0x400)])"

subsection \<open>UTF-8: \<open>Buffer.from(str)\<close> and \<open>buf.toString("utf8")\<close>\<close>

definition utf8_bytes :: "nat \<Rightarrow> buffer" where
  "utf8_bytes c =
     (if c < 0x80 then [of_nat c]
      else if c < 0x800 then [of_nat (0xC0 + c div 0x40), of_nat (0x80 + c mod 0x40)]
      else if c < 0x10000 then
        [of_nat (0xE0 + c div 0x1000), of_nat (0x80 + c div 0x40 mod 0x40),
         of_nat (0x80 + c mod 0x40)]
      else
        [of_nat (0xF0 + c div 0x40000), of_nat (0x80 + c div 0x1000 mod 0x40),
         of_nat (0x80 + c div 0x40 mod 0x40), of_nat (0x80 + c mod 0x40)])"

definition Buffer_from_utf8 :: "js_string \<Rightarrow> buffer" where
  "Buffer_from_utf8 s = concat (map utf8_bytes (code_points s))"

definition cont :: "nat \<Rightarrow> bool" where
  "cont x \<longleftrightarrow> 0x80 \<le> x \<and> x \<le> 0xBF"

text \<open>The range the second byte of a three-byte and of a four-byte sequence must lie in.\<close>

definition second3 :: "nat \<Rightarrow> nat \<Rightarrow> bool" where
  "second3 x y \<longleftrightarrow>
     (if x = 0xE0 then 0xA0 \<le> y \<and> y \<le> 0xBF
      else if x = 0xED then 0x80 \<le> y \<and> y \<le> 0x9F
      else cont y)"

definition second4 :: "nat \<Rightarrow> nat \<Rightarrow> bool" where
  "second4 x y \<longleftrightarrow>
     (if x = 0xF0 then 0x90 \<le> y \<and> y \<le> 0xBF
      else if x = 0xF4 then 0x80 \<le> y \<and> y \<le> 0x8F
      else cont y)"

text \<open>
  The decoder never fails: every ill-formed subsequence (cut at the first byte that cannot
  continue it) becomes one U+FFFD, and decoding goes on at that byte.
\<close>

fun utf8_decode :: "buffer \<Rightarrow> nat list" where
  "utf8_decode [] = []"
| "utf8_decode (b # bs) =
     (if unat b < 0x80 then unat b # utf8_decode bs
      else if 0xC2 \<le> unat b \<and> unat b \<le> 0xDF then
        (case bs of
           [] \<Rightarrow> [0xFFFD]
         | c1 # r1 \<Rightarrow>
             if cont (unat c1)
             then ((unat b - 0xC0) * 0x40 + (unat c1 - 0x80)) # utf8_decode r1
             else 0xFFFD # utf8_decode bs)
      else if 0xE0 \<le> unat b \<and> unat b \<le> 0xEF then
        (case bs of
           [] \<Rightarrow> [0xFFFD]
         | c1 # r1 \<Rightarrow>
             if second3 (unat b) (unat c1) then
               (case r1 of
                  [] \<Rightarrow> [0xFFFD]
                | c2 # r2 \<Rightarrow>
                    if cont (unat c2)
                    then ((unat b - 0xE0) * 0x1000 + (unat c1 - 0x80) * 0x40
                          + (unat c2 - 0x80)) # utf8_decode r2
                    else 0xFFFD # utf8_decode r1)
             else 0xFFFD # utf8_decode bs)
      else if 0xF0 \<le> unat b \<and> unat b \<le> 0xF4 then
        (case bs of
           [] \<Rightarrow> [0xFFFD]
         | c1 # r1 \<Rightarrow>
             if second4 (unat b) (unat c1) then
               (case r1 of
                  [] \<Rightarrow> [0xFFFD]
                | c2 # r2 \<Rightarrow>
                    if cont (unat c2) then
                      (case r2 of
                         [] \<Rightarrow> [0xFFFD]
                       | c3 # r3 \<Rightarrow>
                           if cont (unat c3)
                           then ((unat b - 0xF0) * 0x40000 + (unat c1 - 0x80) * 0x1000
                                 + (unat c2 - 0x80) * 0x40 + (unat c3 - 0x80)) # utf8_decode r3
                           else 0xFFFD # utf8_decode r2)
                    else 0xFFFD # utf8_decode r1)
             else 0xFFFD # utf8_decode bs)
      else 0xFFFD # utf8_decode bs)"

definition toString_utf8 :: "buffer \<Rightarrow> js_string" where
  "toString_utf8 buf = concat (map utf16_units (utf8_decode buf))"

subsection \<open>Base64: \<open>buf.toString("base64")\<close> and \<open>Buffer.from(str, "base64")\<close>\<close>

text \<open>The character of a six-bit value in the alphabet A-Z a-z 0-9 + /.\<close>

definition b64_char :: "nat \<Rightarrow> code_unit" where
  "b64_char n =
     of_nat (if n < 26 then 65 + n
             else if n < 52 then 71 + n
             else if n < 62 then n - 4
             else if n = 62 then 43
             else 47)"

definition pad :: code_unit where
  "pad = 61"

fun toString_base64 :: "buffer \<Rightarrow> js_string" where
  "toString_base64 [] = []"
| "toString_base64 [a] =
     [b64_char (unat a div 4), b64_char (unat a mod 4 * 16), pad, pad]"
| "toString_base64 [a, b] =
     [b64_char (unat a div 4), b64_char (unat a mod 4 * 16 + unat b div 16),
      b64_char (unat b mod 16 * 4), pad]"
| "toString_base64 (a # b # c # r) =
     [b64_char (unat a div 4), b64_char (unat a mod 4 * 16 + unat b div 16),
      b64_char (unat b mod 16 * 4 + unat c div 64), b64_char (unat c mod 64)]
     @ toString_base64 r"

text \<open>
  The decoder reads the low byte of every code unit. It takes the standard and the
  URL-safe alphabet, skips every other character, and stops at the first \<open>=\<close>.
\<close>

definition unbase64 :: "code_unit \<Rightarrow> nat option" where
  "unbase64 u =
     (let c = unat u mod 256 in
      if 65 \<le> c \<and> c \<le> 90 then Some (c - 65)
      else if 97 \<le> c \<and> c \<le> 122 then Some (c - 71)
      else if 48 \<le> c \<and> c \<le> 57 then Some (c + 4)
      else if c = 43 \<or> c = 45 then Some 62
      else if c = 47 \<or> c = 95 then Some 63
      else None)"

fun sextets :: "js_string \<Rightarrow> nat list" where
  "sextets [] = []"
| "sextets (u # r) =
     (case unbase64 u of
        Some v \<Rightarrow> v # sextets r
      | None \<Rightarrow> if unat u mod 256 = 61 then [] else sextets r)"

fun unpack :: "nat list \<Rightarrow> buffer" where
  "unpack (a # b # c # d # r) =
     [of_nat (a * 4 + b div 16), of_nat (b mod 16 * 16 + c div 4), of_nat (c mod 4 * 64 + d)]
     @ unpack r"
| "unpack [a, b, c] = [of_nat (a * 4 + b div 16), of_nat (b mod 16 * 16 + c div 4)]"
| "unpack [a, b] = [of_nat (a * 4 + b div 16)]"
| "unpack [a] = []"
| "unpack [] = []"

datatype js_error = TypeError | Illegal_arguments

text \<open>\<open>Buffer.from(str, "base64")\<close> returns a buffer for every string: it never throws.\<close>

definition Buffer_from_base64 :: "js_string \<Rightarrow> js_error + buffer" where
  "Buffer_from_base64 s = Inr (unpack (sextets s))"

section \<open>Configuration\<close>

text \<open>
  The three values the server reads from \<open>process.env\<close> when it starts; a variable that
  is not set is \<open>undefined\<close> (\<open>None\<close>).
\<close>

record env =
  env_ADMIN_EMAIL :: "js_string option"
  env_ADMIN_PASSWORD :: "js_string option"
  env_ADMIN_TOKEN :: "js_string option"

definition ADMIN_EMAIL :: "env \<Rightarrow> js_string option" where
  "ADMIN_EMAIL e = env_ADMIN_EMAIL e"

definition ADMIN_PASSWORD :: "env \<Rightarrow> js_string option" where
  "ADMIN_PASSWORD e = env_ADMIN_PASSWORD e"

text \<open>\<open>process.env.ADMIN_TOKEN || "goftus-admin-token"\<close>\<close>

definition ADMIN_TOKEN :: "env \<Rightarrow> js_string" where
  "ADMIN_TOKEN e =
     (case env_ADMIN_TOKEN e of
        None \<Rightarrow> lit ''goftus-admin-token''
      | Some t \<Rightarrow> if t = [] then lit ''goftus-admin-token'' else t)"

text \<open>\<open>!v\<close> for a value that is a string or \<open>undefined\<close>.\<close>

definition unset :: "js_string option \<Rightarrow> bool" where
  "unset v \<longleftrightarrow> v = None \<or> v = Some []"

section \<open>Token codec\<close>

definition encodeAdminToken :: "env \<Rightarrow> js_string \<Rightarrow> js_string" where
  "encodeAdminToken e email =
     ADMIN_TOKEN e @ lit ''.'' @ toString_base64 (Buffer_from_utf8 email)"

text \<open>
  \<open>decodeAdminEmail\<close>, over the base64 decoder it calls inside its \<open>try\<close> block:
  a decoder that throws is caught and gives \<open>null\<close> (\<open>None\<close>).
\<close>

definition decodeAdminEmail_via ::
  "(js_string \<Rightarrow> js_error + buffer) \<Rightarrow> env \<Rightarrow> js_string \<Rightarrow> js_string option" where
  "decodeAdminEmail_via from_base64 e token =
     (if \<not> startsWith token (ADMIN_TOKEN e @ lit ''.'') then None
      else
        let encoded = slice_from (length (ADMIN_TOKEN e) + 1) token in
        (case from_base64 encoded of
           Inr buf \<Rightarrow> Some (toString_utf8 buf)
         | Inl err \<Rightarrow> None))"

definition decodeAdminEmail :: "env \<Rightarrow> js_string \<Rightarrow> js_string option" where
  "decodeAdminEmail e token = decodeAdminEmail_via Buffer_from_base64 e token"

section \<open>Values of a request body\<close>

text \<open>
  A field of the parsed JSON body, as the handlers inspect it: with \<open>typeof\<close>, by
  truthiness and by strict equality. A field that is missing is \<open>Undefined\<close>; arrays and
  objects are \<open>Object\<close>.
\<close>

datatype jsval = Undefined | Null | Bool bool | Number int | Str js_string | Object

definition truthy :: "jsval \<Rightarrow> bool" where
  "truthy v =
     (case v of
        Undefined \<Rightarrow> False
      | Null \<Rightarrow> False
      | Bool b \<Rightarrow> b
      | Number n \<Rightarrow> n \<noteq> 0
      | Str s \<Rightarrow> s \<noteq> []
      | Object \<Rightarrow> True)"

text \<open>\<open>a || b\<close>\<close>

definition js_or :: "jsval \<Rightarrow> jsval \<Rightarrow> jsval" where
  "js_or a b = (if truthy a then a else b)"

text \<open>\<open>v === c\<close> for a constant \<open>c\<close> read from the environment.\<close>

definition strict_eq :: "jsval \<Rightarrow> js_string option \<Rightarrow> bool" where
  "strict_eq v c =
     (case c of
        None \<Rightarrow> v = Undefined
      | Some t \<Rightarrow> v = Str t)"

text \<open>
  A call \<open>decodeAdminEmail(token)\<close> with any value for \<open>token\<close>. The test
  \<open>token.startsWith(...)\<close> stands before the \<open>try\<close> block, and only a string has
  that method: any other value raises a \<open>TypeError\<close> that nothing catches.
\<close>

definition decodeAdminEmail_call :: "env \<Rightarrow> jsval \<Rightarrow> js_error + js_string option" where
  "decodeAdminEmail_call e v =
     (case v of
        Str token \<Rightarrow> Inr (decodeAdminEmail e token)
      | _ \<Rightarrow> Inl TypeError)"

section \<open>The storage backend\<close>

text \<open>
  Rows are identified by a uuid. Every call to the backend resolves to \<open>{ data, error }\<close>;
  what the backend contributes to a call is a \<open>reply\<close>: whether the call fails (with the
  message of the error), the database's \<open>now()\<close> and, for an insert, the generated id.
\<close>

type_synonym ident = "128 word"

datatype db_error = Backend js_string | Not_single_row | Duplicate_key

record reply =
  fault :: "js_string option"
  now :: nat
  fresh :: ident

subsection \<open>Table \<open>admin_users\<close>\<close>

record admin_user =
  user_id :: ident
  user_email :: js_string
  password_hash :: "js_string option"

text \<open>\<open>.select(...).eq("email", e).maybeSingle()\<close>\<close>

definition select_admin_user ::
  "reply \<Rightarrow> admin_user list \<Rightarrow> js_string \<Rightarrow> db_error + admin_user option" where
  "select_admin_user rp users e =
     (case fault rp of
        Some m \<Rightarrow> Inl (Backend m)
      | None \<Rightarrow>
          (case filter (\<lambda>u. user_email u = e) users of
             [] \<Rightarrow> Inr None
           | [u] \<Rightarrow> Inr (Some u)
           | _ \<Rightarrow> Inl Not_single_row))"

text \<open>
  The value of an \<open>eq\<close> filter is spliced into the query as text: a string as it is, any
  other value as \<open>render\<close> (JavaScript's conversion to a string) gives it.
\<close>

definition filter_text :: "(jsval \<Rightarrow> js_string) \<Rightarrow> jsval \<Rightarrow> js_string" where
  "filter_text render v = (case v of Str s \<Rightarrow> s | _ \<Rightarrow> render v)"

section \<open>Admin access gate\<close>

record admin =
  admin_id :: "ident option"
  admin_email :: js_string
  admin_isSuperAdmin :: bool

definition findAdminByEmail ::
  "env \<Rightarrow> reply \<Rightarrow> admin_user list \<Rightarrow> js_string option \<Rightarrow> admin option" where
  "findAdminByEmail e rp users email =
     (case email of
        None \<Rightarrow> None
      | Some em \<Rightarrow>
          if em = [] then None
          else if \<not> unset (ADMIN_EMAIL e) \<and> Some em = ADMIN_EMAIL e then
            Some \<lparr>admin_id = None, admin_email = em, admin_isSuperAdmin = True\<rparr>
          else
            (case select_admin_user rp users em of
               Inl err \<Rightarrow> None
             | Inr None \<Rightarrow> None
             | Inr (Some data) \<Rightarrow>
                 Some \<lparr>admin_id = Some (user_id data), admin_email = user_email data,
                       admin_isSuperAdmin = False\<rparr>))"

record request =
  authorization :: "js_string option"
  adminEmail :: "js_string option"
  isSuperAdmin :: "bool option"

record banner =
  banner_id :: ident
  product :: js_string
  message :: js_string
  href :: "js_string option"
  is_active :: bool
  created_at :: nat
  updated_at :: nat

datatype json =
    Error_body js_string
  | Upstream_error db_error
  | Login_body js_string js_string bool
  | Banner_body banner
  | Banners_body "banner list"

text \<open>
  What a middleware or a handler does with a request: it sends a response, it calls
  \<open>next()\<close>, or its promise rejects with an error nobody catches.
\<close>

datatype outcome = Respond nat json | Next request | Rejected js_error

text \<open>The token of the \<open>Authorization\<close> header, with or without \<open>Bearer\<close>.\<close>

definition bearer_token :: "request \<Rightarrow> js_string" where
  "bearer_token req =
     (let authHeader = (case authorization req of None \<Rightarrow> [] | Some h \<Rightarrow> h) in
      if startsWith authHeader (lit ''Bearer '') then slice_from 7 authHeader else authHeader)"

definition requireAdmin :: "env \<Rightarrow> reply \<Rightarrow> admin_user list \<Rightarrow> request \<Rightarrow> outcome" where
  "requireAdmin e rp users req =
     (let token = bearer_token req in
      if unset (ADMIN_EMAIL e) \<or> unset (ADMIN_PASSWORD e) then
        Respond 500 (Error_body (lit ''Admin credentials not configured''))
      else if token = [] then Respond 401 (Error_body (lit ''Unauthorized''))
      else
        let email = decodeAdminEmail e token in
        (case findAdminByEmail e rp users email of
           None \<Rightarrow> Respond 401 (Error_body (lit ''Unauthorized''))
         | Some a \<Rightarrow>
             Next (req\<lparr>adminEmail := Some (admin_email a),
                       isSuperAdmin := Some (admin_isSuperAdmin a)\<rparr>)))"

definition requireSuperAdmin :: "env \<Rightarrow> reply \<Rightarrow> admin_user list \<Rightarrow> request \<Rightarrow> outcome" where
  "requireSuperAdmin e rp users req =
     (case requireAdmin e rp users req of
        Next req' \<Rightarrow>
          if isSuperAdmin req' \<noteq> Some True then Respond 403 (Error_body (lit ''Forbidden''))
          else Next req'
      | out \<Rightarrow> out)"

text \<open>
  A route mounted as \<open>app.post(path, guard, handler)\<close>: the handler runs on the request
  the guard passed on, and only when the guard called \<open>next()\<close>.
\<close>

definition route :: "outcome \<Rightarrow> (request \<Rightarrow> 'w \<Rightarrow> outcome \<times> 'w) \<Rightarrow> 'w \<Rightarrow> outcome \<times> 'w" where
  "route guarded handler w =
     (case guarded of
        Next req' \<Rightarrow> handler req' w
      | out \<Rightarrow> (out, w))"

subsection \<open>\<open>POST /api/admin/login\<close>\<close>

record credentials =
  email_field :: jsval
  username_field :: jsval
  password_field :: jsval

text \<open>
  \<open>bcrypt.compare(s, hash)\<close> of bcryptjs: the promise rejects unless both arguments are
  strings; \<open>matches\<close> says whether the password fits the salted hash.
\<close>

definition bcrypt_compare ::
  "(js_string \<Rightarrow> js_string \<Rightarrow> bool) \<Rightarrow> jsval \<Rightarrow> js_string \<Rightarrow> js_error + bool" where
  "bcrypt_compare matches s hash =
     (case s of
        Str pw \<Rightarrow> Inr (matches pw hash)
      | _ \<Rightarrow> Inl Illegal_arguments)"

definition login ::
  "env \<Rightarrow> (jsval \<Rightarrow> js_string) \<Rightarrow> (js_string \<Rightarrow> js_string \<Rightarrow> bool) \<Rightarrow> reply \<Rightarrow>
   admin_user list \<Rightarrow> credentials \<Rightarrow> outcome" where
  "login e render matches rp users body =
     (let candidate = js_or (email_field body) (username_field body);
          password = password_field body in
      if unset (ADMIN_EMAIL e) \<or> unset (ADMIN_PASSWORD e) then
        Respond 500 (Error_body (lit ''Admin credentials not configured''))
      else if strict_eq candidate (ADMIN_EMAIL e) \<and> strict_eq password (ADMIN_PASSWORD e) then
        (case candidate of
           Str c \<Rightarrow> Respond 200 (Login_body (encodeAdminToken e c) c True)
         | _ \<Rightarrow> Rejected TypeError)
      else
        (case select_admin_user rp users (filter_text render candidate) of
           Inl err \<Rightarrow> Respond 401 (Error_body (lit ''Invalid credentials''))
         | Inr None \<Rightarrow> Respond 401 (Error_body (lit ''Invalid credentials''))
         | Inr (Some data) \<Rightarrow>
             (case bcrypt_compare matches (js_or password (Str []))
                     (case password_hash data of None \<Rightarrow> [] | Some h \<Rightarrow> h) of
                Inl err \<Rightarrow> Rejected err
              | Inr valid \<Rightarrow>
                  if \<not> valid then Respond 401 (Error_body (lit ''Invalid credentials''))
                  else Respond 200 (Login_body (encodeAdminToken e (user_email data))
                                               (user_email data) False))))"

section \<open>Banners\<close>

subsection \<open>Table \<open>banners\<close>\<close>

text \<open>The object given to \<open>update\<close>: the columns it sets.\<close>

record patch =
  set_product :: "js_string option"
  set_message :: "js_string option"
  set_href :: "js_string option option"
  set_is_active :: "bool option"

definition no_change :: patch where
  "no_change = \<lparr>set_product = None, set_message = None, set_href = None, set_is_active = None\<rparr>"

definition deactivate :: patch where
  "deactivate = no_change\<lparr>set_is_active := Some False\<rparr>"

definition activate :: patch where
  "activate = no_change\<lparr>set_is_active := Some True\<rparr>"

text \<open>An updated row; the trigger of the table sets \<open>updated_at\<close> to \<open>now()\<close>.\<close>

definition apply_patch :: "nat \<Rightarrow> patch \<Rightarrow> banner \<Rightarrow> banner" where
  "apply_patch t p b =
     b\<lparr>product := (case set_product p of None \<Rightarrow> product b | Some v \<Rightarrow> v),
       message := (case set_message p of None \<Rightarrow> message b | Some v \<Rightarrow> v),
       href := (case set_href p of None \<Rightarrow> href b | Some v \<Rightarrow> v),
       is_active := (case set_is_active p of None \<Rightarrow> is_active b | Some v \<Rightarrow> v),
       updated_at := t\<rparr>"

text \<open>The object given to \<open>insert\<close>.\<close>

record payload =
  new_product :: jsval
  new_message :: jsval
  new_href :: jsval
  new_is_active :: bool

text \<open>
  The state the banner handlers work on: the rows of the table, the write calls issued to
  the backend so far (oldest first), and the lines written to the console.
\<close>

datatype db_call = Insert payload | Update_neq ident patch | Update_eq ident patch

record world =
  banners :: "banner list"
  calls :: "db_call list"
  console :: "js_string list"

text \<open>
  The text kept in a text column for a JSON value: a string as it is, any other value as
  the cast \<open>cast\<close> of the backend gives it.
\<close>

definition column_text :: "(jsval \<Rightarrow> js_string) \<Rightarrow> jsval \<Rightarrow> js_string" where
  "column_text cast v = (case v of Str s \<Rightarrow> s | _ \<Rightarrow> cast v)"

text \<open>\<open>.insert([payload]).select("*").single()\<close>; the id is the primary key.\<close>

definition insert_banner ::
  "(jsval \<Rightarrow> js_string) \<Rightarrow> reply \<Rightarrow> payload \<Rightarrow> world \<Rightarrow> (db_error + banner) \<times> world" where
  "insert_banner cast rp p w =
     (let w1 = w\<lparr>calls := calls w @ [Insert p]\<rparr> in
      case fault rp of
        Some m \<Rightarrow> (Inl (Backend m), w1)
      | None \<Rightarrow>
          if fresh rp \<in> set (map banner_id (banners w)) then (Inl Duplicate_key, w1)
          else
            let row = \<lparr>banner_id = fresh rp,
                       product = column_text cast (new_product p),
                       message = column_text cast (new_message p),
                       href = (case new_href p of Null \<Rightarrow> None | v \<Rightarrow> Some (column_text cast v)),
                       is_active = new_is_active p,
                       created_at = now rp,
                       updated_at = now rp\<rparr>
            in (Inr row, w1\<lparr>banners := banners w @ [row]\<rparr>))"

text \<open>
  \<open>.update(p).neq("id", i)\<close>: every row whose id differs from \<open>i\<close> is updated. An
  update that sets no column touches no row.
\<close>

definition update_neq :: "reply \<Rightarrow> patch \<Rightarrow> ident \<Rightarrow> world \<Rightarrow> db_error option \<times> world" where
  "update_neq rp p i w =
     (let w1 = w\<lparr>calls := calls w @ [Update_neq i p]\<rparr> in
      case fault rp of
        Some m \<Rightarrow> (Some (Backend m), w1)
      | None \<Rightarrow>
          (None,
           w1\<lparr>banners :=
                map (\<lambda>b. if banner_id b \<noteq> i \<and> p \<noteq> no_change then apply_patch (now rp) p b else b)
                  (banners w)\<rparr>))"

text \<open>
  \<open>.update(p).eq("id", i).select("*").single()\<close>: the row with id \<open>i\<close> is updated and
  returned; unless exactly one row comes back (none does when no row has the id, or when
  the update sets no column) the call is an error and changes nothing.
\<close>

definition update_eq_single ::
  "reply \<Rightarrow> patch \<Rightarrow> ident \<Rightarrow> world \<Rightarrow> (db_error + banner) \<times> world" where
  "update_eq_single rp p i w =
     (let w1 = w\<lparr>calls := calls w @ [Update_eq i p]\<rparr> in
      case fault rp of
        Some m \<Rightarrow> (Inl (Backend m), w1)
      | None \<Rightarrow>
          (case filter (\<lambda>b. banner_id b = i \<and> p \<noteq> no_change) (banners w) of
             [b] \<Rightarrow>
               (Inr (apply_patch (now rp) p b),
                w1\<lparr>banners :=
                     map (\<lambda>b. if banner_id b = i then apply_patch (now rp) p b else b)
                       (banners w)\<rparr>)
           | _ \<Rightarrow> (Inl Not_single_row, w1)))"

subsection \<open>Handlers\<close>

text \<open>The fields a handler takes out of \<open>req.body || {}\<close>.\<close>

record banner_fields =
  product_field :: jsval
  message_field :: jsval
  href_field :: jsval
  is_active_field :: jsval

text \<open>\<open>GET /api/admin/banners\<close>\<close>

definition get_banners :: "reply \<Rightarrow> world \<Rightarrow> outcome" where
  "get_banners rp w =
     (case fault rp of
        Some m \<Rightarrow> Respond 500 (Upstream_error (Backend m))
      | None \<Rightarrow> Respond 200 (Banners_body (rev (sort_key created_at (banners w)))))"

text \<open>\<open>POST /api/admin/banners\<close>\<close>

definition post_payload :: "banner_fields \<Rightarrow> payload" where
  "post_payload body =
     \<lparr>new_product = product_field body,
      new_message = message_field body,
      new_href = js_or (href_field body) Null,
      new_is_active = truthy (is_active_field body)\<rparr>"

definition post_banners ::
  "(jsval \<Rightarrow> js_string) \<Rightarrow> reply \<Rightarrow> reply \<Rightarrow> banner_fields \<Rightarrow> world \<Rightarrow> outcome \<times> world" where
  "post_banners cast r1 r2 body w =
     (if \<not> truthy (product_field body) \<or> \<not> truthy (message_field body) then
        (Respond 400 (Error_body (lit ''Missing product or message'')), w)
      else
        let p = post_payload body;
            (res, w1) = insert_banner cast r1 p w
        in
          (case res of
             Inl error \<Rightarrow> (Respond 500 (Upstream_error error), w1)
           | Inr data \<Rightarrow>
               let w2 = (if new_is_active p
                         then snd (update_neq r2 deactivate (banner_id data) w1)
                         else w1)
               in (Respond 200 (Banner_body data), w2)))"

text \<open>\<open>PUT /api/admin/banners/:id\<close>\<close>

definition put_payload :: "banner_fields \<Rightarrow> patch" where
  "put_payload body =
     \<lparr>set_product = (case product_field body of Str s \<Rightarrow> Some s | _ \<Rightarrow> None),
      set_message = (case message_field body of Str s \<Rightarrow> Some s | _ \<Rightarrow> None),
      set_href =
        (case href_field body of
           Str s \<Rightarrow> Some (if s = [] then None else Some s)
         | Null \<Rightarrow> Some None
         | _ \<Rightarrow> None),
      set_is_active = (case is_active_field body of Bool b \<Rightarrow> Some b | _ \<Rightarrow> None)\<rparr>"

definition put_banner ::
  "reply \<Rightarrow> reply \<Rightarrow> ident \<Rightarrow> banner_fields \<Rightarrow> world \<Rightarrow> outcome \<times> world" where
  "put_banner r1 r2 i body w =
     (let p = put_payload body;
          w1 = (if set_is_active p = Some True then snd (update_neq r1 deactivate i w) else w);
          (res, w2) = update_eq_single r2 p i w1
      in
        (case res of
           Inl error \<Rightarrow> (Respond 500 (Upstream_error error), w2)
         | Inr data \<Rightarrow> (Respond 200 (Banner_body data), w2)))"

text \<open>\<open>POST /api/admin/banners/:id/activate\<close>\<close>

definition post_banner_activate :: "reply \<Rightarrow> reply \<Rightarrow> ident \<Rightarrow> world \<Rightarrow> outcome \<times> world" where
  "post_banner_activate r1 r2 i w =
     (let w1 = snd (update_neq r1 deactivate i w);
          (res, w2) = update_eq_single r2 activate i w1
      in
        (case res of
           Inl error \<Rightarrow> (Respond 500 (Upstream_error error), w2)
         | Inr data \<Rightarrow> (Respond 200 (Banner_body data), w2)))"

section \<open>Sample configurations and requests\<close>

text \<open>Concrete values at which the theorems below are instantiated.\<close>

definition env_x :: env where
  "env_x = \<lparr>env_ADMIN_EMAIL = Some (lit ''admin@x.com''),
            env_ADMIN_PASSWORD = Some (lit ''secret''), env_ADMIN_TOKEN = None\<rparr>"

definition env_none :: env where
  "env_none = \<lparr>env_ADMIN_EMAIL = None, env_ADMIN_PASSWORD = None, env_ADMIN_TOKEN = None\<rparr>"

definition served :: reply where
  "served = \<lparr>fault = None, now = 5, fresh = 9\<rparr>"

definition down :: reply where
  "down = \<lparr>fault = Some (lit ''upstream down''), now = 5, fresh = 9\<rparr>"

definition bob :: admin_user where
  "bob = \<lparr>user_id = 7, user_email = lit ''bob@x.com'',
          password_hash = Some (lit ''hash-of-pw'')\<rparr>"

definition bare :: request where
  "bare = \<lparr>authorization = None, adminEmail = None, isSuperAdmin = None\<rparr>"

definition with_token :: "js_string \<Rightarrow> request" where
  "with_token t =
     \<lparr>authorization = Some (lit ''Bearer '' @ t), adminEmail = None, isSuperAdmin = None\<rparr>"

text \<open>A stand-in for bcrypt: the hash of a password is the password behind \<open>hash-of-\<close>.\<close>

definition toy_matches :: "js_string \<Rightarrow> js_string \<Rightarrow> bool" where
  "toy_matches pw h \<longleftrightarrow> h = lit ''hash-of-'' @ pw"

definition toy_render :: "jsval \<Rightarrow> js_string" where
  "toy_render v = lit ''undefined''"

definition creds :: "jsval \<Rightarrow> jsval \<Rightarrow> credentials" where
  "creds em pw = \<lparr>email_field = em, username_field = Undefined, password_field = pw\<rparr>"

text \<open>Two banners, the first of them active, and two request bodies that ask for an active banner.\<close>

definition bn :: "ident \<Rightarrow> bool \<Rightarrow> banner" where
  "bn i a = \<lparr>banner_id = i, product = lit ''p'', message = lit ''m'', href = None,
             is_active = a, created_at = 0, updated_at = 0\<rparr>"

definition w0 :: world where
  "w0 = \<lparr>banners = [bn 1 True, bn 2 False], calls = [], console = []\<rparr>"

definition new_active :: banner_fields where
  "new_active = \<lparr>product_field = Str (lit ''x''), message_field = Str (lit ''y''),
                 href_field = Undefined, is_active_field = Bool True\<rparr>"

definition set_active :: banner_fields where
  "set_active = \<lparr>product_field = Undefined, message_field = Undefined,
                 href_field = Undefined, is_active_field = Bool True\<rparr>"

section \<open>Properties of the platform functions\<close>

subsection \<open>Base64 decodes what it encodes\<close>

lemma unat_byte_lt: "unat (b :: byte) < 256"
  using unsigned_less [of b, where ?'a = nat] by simp

lemma unat_unit_lt: "unat (u :: code_unit) < 65536"
  using unsigned_less [of u, where ?'a = nat] by simp

lemma unat_of_nat_byte: "n < 256 \<Longrightarrow> unat (of_nat n :: byte) = n"
  by (simp add: unat_of_nat)

lemma unat_of_nat_unit: "n < 65536 \<Longrightarrow> unat (of_nat n :: code_unit) = n"
  by (simp add: unat_of_nat)

lemma unat_b64_char:
  "n < 64 \<Longrightarrow> unat (b64_char n) mod 256 =
     (if n < 26 then 65 + n else if n < 52 then 71 + n else if n < 62 then n - 4
      else if n = 62 then 43 else 47)"
  by (simp only: b64_char_def unat_of_nat) simp

lemma unbase64_b64_char: "n < 64 \<Longrightarrow> unbase64 (b64_char n) = Some n"
proof -
  assume n: "n < 64"
  consider "n < 26" | "26 \<le> n" "n < 52" | "52 \<le> n" "n < 62" | "n = 62" | "n = 63"
    using n by linarith
  then show ?thesis
  proof cases
    case 1
    then show ?thesis unfolding unbase64_def Let_def unat_b64_char [OF n] by simp
  next
    case 2
    then show ?thesis unfolding unbase64_def Let_def unat_b64_char [OF n] by simp
  next
    case 3
    then show ?thesis unfolding unbase64_def Let_def unat_b64_char [OF n] by simp arith
  next
    case 4
    then show ?thesis unfolding unbase64_def Let_def unat_b64_char [OF n] by simp
  next
    case 5
    then show ?thesis unfolding unbase64_def Let_def unat_b64_char [OF n] by simp
  qed
qed

lemma unbase64_pad: "unbase64 pad = None" "unat pad mod 256 = 61"
  by (simp_all add: unbase64_def pad_def)

lemma sextets_char: "n < 64 \<Longrightarrow> sextets (b64_char n # r) = n # sextets r"
  by (simp add: unbase64_b64_char)

lemma sextets_pad: "sextets (pad # r) = []"
  by (simp add: unbase64_pad)

lemma dm: "k < n \<Longrightarrow> (m * n + k) div n = m" "k < n \<Longrightarrow> (m * n + k) mod n = k" for k :: nat
  by simp_all

lemma byte_div: "b < 256 \<Longrightarrow> b div 16 < 16" "b < 256 \<Longrightarrow> b div 64 < 4" "b < 256 \<Longrightarrow> b div 4 < 64"
  for b :: nat
  by (simp_all add: div_less_iff_less_mult)

lemma pack_lt:
  "p < 4 \<Longrightarrow> q < 16 \<Longrightarrow> p * 16 + q < 64"
  "q < 16 \<Longrightarrow> p < 4 \<Longrightarrow> q * 4 + p < 64"
  "p < 4 \<Longrightarrow> p * 16 < 64"
  "q < 16 \<Longrightarrow> q * 4 < 64"
  for p q :: nat
  by linarith+

lemma sx_bounds:
  "a div 4 < 64" "a mod 4 * 16 + b div 16 < 64" "b mod 16 * 4 + c div 64 < 64" "c mod 64 < 64"
  "a mod 4 * 16 < 64" "b mod 16 * 4 < 64"
  if "a < 256" "b < 256" "c < (256::nat)"
  using that by (simp_all add: byte_div pack_lt)

lemma join1: "(a div 4) * 4 + (a mod 4 * 16 + b div 16) div 16 = (a::nat)" if "b < 256"
  using byte_div(1) [OF that] by (simp add: dm)

lemma join1': "(a div 4) * 4 + (a mod 4 * 16) div 16 = (a::nat)"
  by simp

lemma join2:
  "(a mod 4 * 16 + b div 16) mod 16 * 16 + (b mod 16 * 4 + c div 64) div 4 = (b::nat)"
  if "b < 256" "c < 256"
  using byte_div(1) [OF that(1)] byte_div(2) [OF that(2)] by (simp add: dm)

lemma join2':
  "b < 256 \<Longrightarrow> (a mod 4 * 16 + b div 16) mod 16 * 16 + (b mod 16 * 4) div 4 = (b::nat)"
  using byte_div(1) [of b] by (simp add: dm)

lemma join3: "c < 256 \<Longrightarrow> (b mod 16 * 4 + c div 64) mod 4 * 64 + c mod 64 = (c::nat)"
  using byte_div(2) [of c] by (simp add: dm)

lemma unpack1: "unpack [a div 4, a mod 4 * 16] = [of_nat a]"
  by (simp only: unpack.simps join1')

lemma unpack2:
  "a < 256 \<Longrightarrow> b < 256 \<Longrightarrow>
   unpack [a div 4, a mod 4 * 16 + b div 16, b mod 16 * 4] = [of_nat a, of_nat b]"
  by (simp only: unpack.simps join1 join2')

lemma unpack3:
  "a < 256 \<Longrightarrow> b < 256 \<Longrightarrow> c < 256 \<Longrightarrow>
   unpack (a div 4 # (a mod 4 * 16 + b div 16) # (b mod 16 * 4 + c div 64) # c mod 64 # r)
   = [of_nat a, of_nat b, of_nat c] @ unpack r"
  by (simp only: unpack.simps join1 join2 join3)

lemma base64_roundtrip: "unpack (sextets (toString_base64 bs)) = bs"
proof (induction bs rule: toString_base64.induct)
  case 1
  then show ?case by simp
next
  case (2 a)
  have A: "unat a < 256" by (rule unat_byte_lt)
  show ?case
    by (simp del: sextets.simps(2) unpack.simps
        add: sextets_char sextets_pad sx_bounds [OF A A A] unpack1)
next
  case (3 a b)
  have A: "unat a < 256" and B: "unat b < 256" by (rule unat_byte_lt)+
  show ?case
    by (simp del: sextets.simps(2) unpack.simps
        add: sextets_char sextets_pad sx_bounds [OF A B B] unpack2 [OF A B])
next
  case (4 a b c r)
  have A: "unat a < 256" and B: "unat b < 256" and C: "unat c < 256" by (rule unat_byte_lt)+
  show ?case
    using 4
    by (simp del: sextets.simps(2) unpack.simps
        add: sextets_char sx_bounds [OF A B C] unpack3 [OF A B C])
qed

subsection \<open>UTF-8 decodes what it encodes\<close>

lemma digits2: "c = c div 0x40 * 0x40 + c mod 0x40" for c :: nat
  by simp

lemma comb3: "q = x * 0x40 + y \<Longrightarrow> c = q * 0x40 + z \<Longrightarrow> c = x * 0x1000 + y * 0x40 + z"
  for c :: nat
  by (simp add: add_mult_distrib)

lemma comb4:
  "q = w * 0x40 + x \<Longrightarrow> c = q * 0x1000 + y * 0x40 + z \<Longrightarrow>
   c = w * 0x40000 + x * 0x1000 + y * 0x40 + z"
  for c :: nat
  by (simp add: add_mult_distrib)

lemma digits3: "c = c div 0x1000 * 0x1000 + c div 0x40 mod 0x40 * 0x40 + c mod 0x40" for c :: nat
proof -
  have "c div (0x40 * 0x40) = c div 0x40 div 0x40" by (rule div_mult2_eq)
  then have A: "c div 0x40 div 0x40 = c div 0x1000" by simp
  have B: "c div 0x40 = c div 0x40 div 0x40 * 0x40 + c div 0x40 mod 0x40" by simp
  have C: "c = c div 0x40 * 0x40 + c mod 0x40" by simp
  show ?thesis using comb3 [OF B C] unfolding A .
qed

lemma digits4:
  "c = c div 0x40000 * 0x40000 + c div 0x1000 mod 0x40 * 0x1000 + c div 0x40 mod 0x40 * 0x40
       + c mod 0x40"
  for c :: nat
proof -
  have "c div (0x1000 * 0x40) = c div 0x1000 div 0x40" by (rule div_mult2_eq)
  then have A: "c div 0x1000 div 0x40 = c div 0x40000" by simp
  have B: "c div 0x1000 = c div 0x1000 div 0x40 * 0x40 + c div 0x1000 mod 0x40" by simp
  show ?thesis using comb4 [OF B digits3] unfolding A .
qed

lemma m64: "c mod 0x40 < 0x40" "c div 0x40 mod 0x40 < 0x40" "c div 0x1000 mod 0x40 < 0x40"
  for c :: nat
  by simp_all

lemma utf8_1: "c < 0x80 \<Longrightarrow> utf8_decode (utf8_bytes c @ bs) = c # utf8_decode bs"
  by (simp add: utf8_bytes_def unat_of_nat_byte)

lemma dec2:
  fixes b0 b1 :: byte
  assumes "unat b0 = 0xC0 + x" "unat b1 = 0x80 + z" "z < 0x40" "2 \<le> x" "x < 0x20"
  shows "utf8_decode (b0 # b1 # bs) = (x * 0x40 + z) # utf8_decode bs"
  using assms by (simp add: cont_def)

lemma dec3:
  fixes b0 b1 b2 :: byte
  assumes "unat b0 = 0xE0 + x" "unat b1 = 0x80 + y" "unat b2 = 0x80 + z"
    "x < 0x10" "y < 0x40" "z < 0x40" "x = 0 \<longrightarrow> 0x20 \<le> y" "x = 0xD \<longrightarrow> y < 0x20"
  shows "utf8_decode (b0 # b1 # b2 # bs) = (x * 0x1000 + y * 0x40 + z) # utf8_decode bs"
  using assms by (auto simp: cont_def second3_def)

lemma dec4:
  fixes b0 b1 b2 b3 :: byte
  assumes "unat b0 = 0xF0 + w" "unat b1 = 0x80 + x" "unat b2 = 0x80 + y" "unat b3 = 0x80 + z"
    "w \<le> 4" "x < 0x40" "y < 0x40" "z < 0x40" "w = 0 \<longrightarrow> 0x10 \<le> x" "w = 4 \<longrightarrow> x < 0x10"
  shows "utf8_decode (b0 # b1 # b2 # b3 # bs)
         = (w * 0x40000 + x * 0x1000 + y * 0x40 + z) # utf8_decode bs"
  using assms by (auto simp: cont_def second4_def)

lemma rng2:
  fixes c x z :: nat
  assumes "c = x * 0x40 + z" "z < 0x40" "0x80 \<le> c" "c < 0x800"
  shows "2 \<le> x" "x < 0x20" "0xC0 + x < 256" "0x80 + z < 256"
  using assms by simp_all

lemma rng3:
  fixes c x y z :: nat
  assumes "c = x * 0x1000 + y * 0x40 + z" "y < 0x40" "z < 0x40" "0x800 \<le> c" "c < 0x10000"
    "\<not> (0xD800 \<le> c \<and> c \<le> 0xDFFF)"
  shows "x < 0x10" "x = 0 \<longrightarrow> 0x20 \<le> y" "x = 0xD \<longrightarrow> y < 0x20"
    "0xE0 + x < 256" "0x80 + y < 256" "0x80 + z < 256"
  using assms by auto

lemma rng4:
  fixes c w x y z :: nat
  assumes "c = w * 0x40000 + x * 0x1000 + y * 0x40 + z" "x < 0x40" "y < 0x40" "z < 0x40"
    "0x10000 \<le> c" "c < 0x110000"
  shows "w \<le> 4" "w = 0 \<longrightarrow> 0x10 \<le> x" "w = 4 \<longrightarrow> x < 0x10"
    "0xF0 + w < 256" "0x80 + x < 256" "0x80 + y < 256" "0x80 + z < 256"
  using assms by auto

lemma utf8_2:
  assumes "0x80 \<le> c" "c < 0x800"
  shows "utf8_decode (utf8_bytes c @ bs) = c # utf8_decode bs"
proof -
  note r = rng2 [OF digits2 m64(1) assms]
  have e: "utf8_bytes c = [of_nat (0xC0 + c div 0x40), of_nat (0x80 + c mod 0x40)]"
    using assms unfolding utf8_bytes_def by simp
  have "utf8_decode (utf8_bytes c @ bs) = (c div 0x40 * 0x40 + c mod 0x40) # utf8_decode bs"
    unfolding e append_Cons append_Nil
    by (rule dec2 [OF unat_of_nat_byte [OF r(3)] unat_of_nat_byte [OF r(4)] m64(1) r(1) r(2)])
  then show ?thesis unfolding digits2 [symmetric] .
qed

lemma utf8_3:
  assumes "0x800 \<le> c" "c < 0x10000" "\<not> (0xD800 \<le> c \<and> c \<le> 0xDFFF)"
  shows "utf8_decode (utf8_bytes c @ bs) = c # utf8_decode bs"
proof -
  note r = rng3 [OF digits3 m64(2) m64(1) assms]
  have e: "utf8_bytes c = [of_nat (0xE0 + c div 0x1000), of_nat (0x80 + c div 0x40 mod 0x40),
             of_nat (0x80 + c mod 0x40)]"
    using assms unfolding utf8_bytes_def by simp
  have "utf8_decode (utf8_bytes c @ bs)
        = (c div 0x1000 * 0x1000 + c div 0x40 mod 0x40 * 0x40 + c mod 0x40) # utf8_decode bs"
    unfolding e append_Cons append_Nil
    by (rule dec3 [OF unat_of_nat_byte [OF r(4)] unat_of_nat_byte [OF r(5)]
          unat_of_nat_byte [OF r(6)] r(1) m64(2) m64(1) r(2) r(3)])
  then show ?thesis unfolding digits3 [symmetric] .
qed

lemma utf8_4:
  assumes "0x10000 \<le> c" "c < 0x110000"
  shows "utf8_decode (utf8_bytes c @ bs) = c # utf8_decode bs"
proof -
  note r = rng4 [OF digits4 m64(3) m64(2) m64(1) assms]
  have e: "utf8_bytes c = [of_nat (0xF0 + c div 0x40000), of_nat (0x80 + c div 0x1000 mod 0x40),
             of_nat (0x80 + c div 0x40 mod 0x40), of_nat (0x80 + c mod 0x40)]"
    using assms unfolding utf8_bytes_def by simp
  have "utf8_decode (utf8_bytes c @ bs)
        = (c div 0x40000 * 0x40000 + c div 0x1000 mod 0x40 * 0x1000 + c div 0x40 mod 0x40 * 0x40
           + c mod 0x40) # utf8_decode bs"
    unfolding e append_Cons append_Nil
    by (rule dec4 [OF unat_of_nat_byte [OF r(4)] unat_of_nat_byte [OF r(5)]
          unat_of_nat_byte [OF r(6)] unat_of_nat_byte [OF r(7)] r(1) m64(3) m64(2) m64(1)
          r(2) r(3)])
  then show ?thesis unfolding digits4 [symmetric] .
qed

lemma utf8_scalar: "scalar c \<Longrightarrow> utf8_decode (utf8_bytes c @ bs) = c # utf8_decode bs"
  using utf8_1 [of c bs] utf8_2 [of c bs] utf8_3 [of c bs] utf8_4 [of c bs]
  unfolding scalar_def by linarith

lemma utf8_roundtrip:
  "\<forall>c \<in> set cs. scalar c \<Longrightarrow> utf8_decode (concat (map utf8_bytes cs)) = cs"
  by (induction cs) (simp_all add: utf8_scalar)

subsection \<open>Well-formed strings survive the conversion to UTF-8 and back\<close>

lemma pair_digits:
  fixes p q :: nat
  assumes "q < 0x400"
  shows "(0x10000 + p * 0x400 + q - 0x10000) div 0x400 = p"
    "(0x10000 + p * 0x400 + q - 0x10000) mod 0x400 = q"
  using assms by (simp_all add: dm)

lemma pair_units:
  assumes "is_high a" "is_low b"
  shows "utf16_units (0x10000 + (a - 0xD800) * 0x400 + (b - 0xDC00)) = [of_nat a, of_nat b]"
proof -
  have q: "b - 0xDC00 < 0x400" and a: "0xD800 + (a - 0xD800) = a" and b: "0xDC00 + (b - 0xDC00) = b"
    using assms by (auto simp: is_high_def is_low_def)
  have big: "\<not> 0x10000 + (a - 0xD800) * 0x400 + (b - 0xDC00) < 0x10000" by simp
  show ?thesis
    unfolding utf16_units_def if_not_P [OF big] pair_digits [OF q] a b ..
qed

lemma pair_scalar:
  assumes "is_high a" "is_low b"
  shows "scalar (0x10000 + (a - 0xD800) * 0x400 + (b - 0xDC00))"
  using assms by (auto simp: is_high_def is_low_def scalar_def)

lemma single_units: "utf16_units (unat (u :: code_unit)) = [u]"
  using unat_unit_lt [of u] by (simp add: utf16_units_def)

lemma single_scalar:
  "\<not> is_high (unat (u :: code_unit)) \<Longrightarrow> \<not> is_low (unat u) \<Longrightarrow> scalar (unat u)"
  using unat_unit_lt [of u] by (auto simp: is_high_def is_low_def scalar_def)

lemma lone_id: "\<not> is_high u \<Longrightarrow> \<not> is_low u \<Longrightarrow> lone u = u"
  by (simp add: lone_def)

lemma high_not_low: "is_high u \<Longrightarrow> \<not> is_low u"
  by (simp add: is_high_def is_low_def)

lemma code_points_scalar: "well_formed s \<Longrightarrow> \<forall>c \<in> set (code_points s). scalar c"
proof (induction s rule: code_points.induct)
  case 1
  then show ?case by simp
next
  case (2 u)
  then show ?case by (simp add: lone_id single_scalar)
next
  case (3 h l r)
  show ?case
  proof (cases "is_high (unat h)")
    case True
    with 3 show ?thesis by (simp add: pair_scalar)
  next
    case False
    with 3 show ?thesis by (simp add: lone_id single_scalar)
  qed
qed

lemma utf16_roundtrip: "well_formed s \<Longrightarrow> concat (map utf16_units (code_points s)) = s"
proof (induction s rule: code_points.induct)
  case 1
  then show ?case by simp
next
  case (2 u)
  then show ?case by (simp add: lone_id single_units)
next
  case (3 h l r)
  show ?case
  proof (cases "is_high (unat h)")
    case True
    with 3 show ?thesis by (simp add: pair_units)
  next
    case False
    with 3 show ?thesis by (simp add: lone_id single_units)
  qed
qed

lemma string_roundtrip: "well_formed s \<Longrightarrow> toString_utf8 (Buffer_from_utf8 s) = s"
  by (simp add: toString_utf8_def Buffer_from_utf8_def utf8_roundtrip code_points_scalar
      utf16_roundtrip)

lemma startsWith_append: "startsWith (p @ s) p"
  by (simp add: startsWith_def)

lemma length_lit: "length (lit s) = length s"
  by (simp add: lit_def)


subsection \<open>Every byte sequence reads as a well-formed string\<close>

lemma scalar_small: "x < 0x80 \<Longrightarrow> scalar x"
  by (simp add: scalar_def)

lemma scalar_replacement: "scalar 0xFFFD"
  by (simp add: scalar_def)

lemma scalar2:
  "0xC2 \<le> x \<Longrightarrow> x \<le> 0xDF \<Longrightarrow> cont y \<Longrightarrow> scalar ((x - 0xC0) * 0x40 + (y - 0x80))"
  by (auto simp: scalar_def cont_def)

lemma scalar3:
  assumes "0xE0 \<le> x" "x \<le> 0xEF" "second3 x y" "cont z"
  shows "scalar ((x - 0xE0) * 0x1000 + (y - 0x80) * 0x40 + (z - 0x80))"
proof -
  consider "x \<le> 0xEC" | "x = 0xED" | "0xEE \<le> x" by linarith
  then show ?thesis
  proof cases
    case 1
    then show ?thesis using assms by (auto simp: scalar_def cont_def second3_def split: if_splits)
  next
    case 2
    then show ?thesis using assms by (auto simp: scalar_def cont_def second3_def split: if_splits)
  next
    case 3
    then show ?thesis using assms by (auto simp: scalar_def cont_def second3_def split: if_splits)
  qed
qed

lemma scalar4:
  assumes "0xF0 \<le> x" "x \<le> 0xF4" "second4 x y" "cont z" "cont t"
  shows "scalar ((x - 0xF0) * 0x40000 + (y - 0x80) * 0x1000 + (z - 0x80) * 0x40 + (t - 0x80))"
proof -
  consider "x \<le> 0xF3" | "x = 0xF4" using assms(2) by linarith
  then show ?thesis
  proof cases
    case 1
    then show ?thesis using assms by (auto simp: scalar_def cont_def second4_def split: if_splits)
  next
    case 2
    then show ?thesis using assms by (auto simp: scalar_def cont_def second4_def split: if_splits)
  qed
qed

lemma utf8_decode_step:
  "\<exists>c. scalar c \<and>
     (utf8_decode (b # bs) = [c] \<or>
      (\<exists>r. length r \<le> length bs \<and> utf8_decode (b # bs) = c # utf8_decode r))"
proof -
  have A: "\<And>c r. scalar c \<Longrightarrow> length r \<le> length bs \<Longrightarrow> utf8_decode (b # bs) = c # utf8_decode r \<Longrightarrow> ?thesis"
    by blast
  have B: "\<And>c. scalar c \<Longrightarrow> utf8_decode (b # bs) = [c] \<Longrightarrow> ?thesis"
    by blast
  consider (ascii) "unat b < 0x80"
    | (two) "\<not> unat b < 0x80" "0xC2 \<le> unat b \<and> unat b \<le> 0xDF"
    | (three) "\<not> unat b < 0x80" "\<not> (0xC2 \<le> unat b \<and> unat b \<le> 0xDF)"
        "0xE0 \<le> unat b \<and> unat b \<le> 0xEF"
    | (four) "\<not> unat b < 0x80" "\<not> (0xC2 \<le> unat b \<and> unat b \<le> 0xDF)"
        "\<not> (0xE0 \<le> unat b \<and> unat b \<le> 0xEF)" "0xF0 \<le> unat b \<and> unat b \<le> 0xF4"
    | (bad) "\<not> unat b < 0x80" "\<not> (0xC2 \<le> unat b \<and> unat b \<le> 0xDF)"
        "\<not> (0xE0 \<le> unat b \<and> unat b \<le> 0xEF)" "\<not> (0xF0 \<le> unat b \<and> unat b \<le> 0xF4)"
    by blast
  then show ?thesis
  proof cases
    case ascii
    show ?thesis
      by (rule A [of "unat b" bs]) (simp_all add: ascii scalar_small)
  next
    case bad
    show ?thesis
      by (rule A [of "0xFFFD" bs]) (simp_all add: bad scalar_replacement)
  next
    case two
    show ?thesis
    proof (cases bs)
      case Nil
      show ?thesis
        by (rule B [of "0xFFFD"]) (simp_all add: two Nil scalar_replacement)
    next
      case (Cons c1 r1)
      show ?thesis
      proof (cases "cont (unat c1)")
        case True
        have "utf8_decode (b # bs) = ((unat b - 0xC0) * 0x40 + (unat c1 - 0x80)) # utf8_decode r1"
          unfolding Cons by (subst utf8_decode.simps(2)) (simp add: two True del: utf8_decode.simps)
        then show ?thesis
          by (intro A [of _ r1]) (simp_all add: Cons two True scalar2 del: utf8_decode.simps)
      next
        case False
        have "utf8_decode (b # bs) = 0xFFFD # utf8_decode bs"
          unfolding Cons by (subst utf8_decode.simps(2)) (simp add: two False del: utf8_decode.simps)
        then show ?thesis
          by (intro A [of "0xFFFD" bs]) (simp_all add: scalar_replacement del: utf8_decode.simps)
      qed
    qed
  next
    case three
    show ?thesis
    proof (cases bs)
      case Nil
      show ?thesis
        by (rule B [of "0xFFFD"]) (simp_all add: three Nil scalar_replacement)
    next
      case c1: (Cons c1 r1)
      show ?thesis
      proof (cases "second3 (unat b) (unat c1)")
        case False
        have "utf8_decode (b # bs) = 0xFFFD # utf8_decode bs"
          unfolding c1 by (subst utf8_decode.simps(2)) (simp add: three False del: utf8_decode.simps)
        then show ?thesis
          by (intro A [of "0xFFFD" bs]) (simp_all add: scalar_replacement del: utf8_decode.simps)
      next
        case s: True
        show ?thesis
        proof (cases r1)
          case Nil
          show ?thesis
            by (rule B [of "0xFFFD"]) (simp_all add: three c1 s Nil scalar_replacement)
        next
          case c2: (Cons c2 r2)
          show ?thesis
          proof (cases "cont (unat c2)")
            case True
            have "utf8_decode (b # bs) =
                ((unat b - 0xE0) * 0x1000 + (unat c1 - 0x80) * 0x40 + (unat c2 - 0x80)) # utf8_decode r2"
              unfolding c1 c2
              by (subst utf8_decode.simps(2)) (simp add: three s True del: utf8_decode.simps)
            then show ?thesis
              by (intro A [of _ r2]) (simp_all add: c1 c2 three s True scalar3 del: utf8_decode.simps)
          next
            case False
            have "utf8_decode (b # bs) = 0xFFFD # utf8_decode r1"
              unfolding c1 c2
              by (subst utf8_decode.simps(2)) (simp add: three s False del: utf8_decode.simps)
            then show ?thesis
              by (intro A [of "0xFFFD" r1]) (simp_all add: c1 scalar_replacement del: utf8_decode.simps)
          qed
        qed
      qed
    qed
  next
    case four
    show ?thesis
    proof (cases bs)
      case Nil
      show ?thesis
        by (rule B [of "0xFFFD"]) (simp_all add: four Nil scalar_replacement)
    next
      case c1: (Cons c1 r1)
      show ?thesis
      proof (cases "second4 (unat b) (unat c1)")
        case False
        have "utf8_decode (b # bs) = 0xFFFD # utf8_decode bs"
          unfolding c1 by (subst utf8_decode.simps(2)) (simp add: four False del: utf8_decode.simps)
        then show ?thesis
          by (intro A [of "0xFFFD" bs]) (simp_all add: scalar_replacement del: utf8_decode.simps)
      next
        case s: True
        show ?thesis
        proof (cases r1)
          case Nil
          show ?thesis
            by (rule B [of "0xFFFD"]) (simp_all add: four c1 s Nil scalar_replacement)
        next
          case c2: (Cons c2 r2)
          show ?thesis
          proof (cases "cont (unat c2)")
            case False
            have "utf8_decode (b # bs) = 0xFFFD # utf8_decode r1"
              unfolding c1 c2
              by (subst utf8_decode.simps(2)) (simp add: four s False del: utf8_decode.simps)
            then show ?thesis
              by (intro A [of "0xFFFD" r1]) (simp_all add: c1 scalar_replacement del: utf8_decode.simps)
          next
            case t: True
            show ?thesis
            proof (cases r2)
              case Nil
              show ?thesis
                by (rule B [of "0xFFFD"]) (simp_all add: four c1 c2 s t Nil scalar_replacement)
            next
              case c3: (Cons c3 r3)
              show ?thesis
              proof (cases "cont (unat c3)")
                case True
                have "utf8_decode (b # bs) =
                    ((unat b - 0xF0) * 0x40000 + (unat c1 - 0x80) * 0x1000
                      + (unat c2 - 0x80) * 0x40 + (unat c3 - 0x80)) # utf8_decode r3"
                  unfolding c1 c2 c3
                  by (subst utf8_decode.simps(2)) (simp add: four s t True del: utf8_decode.simps)
                then show ?thesis
                  by (intro A [of _ r3])
                    (simp_all add: c1 c2 c3 four s t True scalar4 del: utf8_decode.simps)
              next
                case False
                have "utf8_decode (b # bs) = 0xFFFD # utf8_decode r2"
                  unfolding c1 c2 c3
                  by (subst utf8_decode.simps(2)) (simp add: four s t False del: utf8_decode.simps)
                then show ?thesis
                  by (intro A [of "0xFFFD" r2])
                    (simp_all add: c1 c2 scalar_replacement del: utf8_decode.simps)
              qed
            qed
          qed
        qed
      qed
    qed
  qed
qed

lemma utf8_decode_scalar: "\<forall>c \<in> set (utf8_decode bs). scalar c"
proof (induction bs rule: length_induct)
  case (1 bs)
  show ?case
  proof (cases bs)
    case Nil
    then show ?thesis by simp
  next
    case (Cons b r)
    obtain c where c: "scalar c"
      and d: "utf8_decode (b # r) = [c] \<or>
        (\<exists>r'. length r' \<le> length r \<and> utf8_decode (b # r) = c # utf8_decode r')"
      using utf8_decode_step [of b r] by blast
    from d show ?thesis
    proof
      assume "utf8_decode (b # r) = [c]"
      then show ?thesis using c Cons by simp
    next
      assume "\<exists>r'. length r' \<le> length r \<and> utf8_decode (b # r) = c # utf8_decode r'"
      then obtain r' where l: "length r' \<le> length r" and e: "utf8_decode (b # r) = c # utf8_decode r'"
        by blast
      have "length r' < length bs"
        using l Cons by simp
      then have "\<forall>c \<in> set (utf8_decode r'). scalar c"
        using 1 by blast
      then show ?thesis
        unfolding Cons e using c by simp
    qed
  qed
qed

lemma unit_scalar_small:
  assumes "scalar c" "c < 0x10000"
  shows "\<not> is_high (unat (of_nat c :: code_unit))" "\<not> is_low (unat (of_nat c :: code_unit))"
  using assms by (auto simp: unat_of_nat_unit scalar_def is_high_def is_low_def)

lemma pair_parts:
  fixes c :: nat
  assumes "0x10000 \<le> c" "c < 0x110000"
  shows "(c - 0x10000) div 0x400 < 0x400" "(c - 0x10000) mod 0x400 < 0x400"
  using assms by (simp_all add: div_less_iff_less_mult)

lemma unit_high_low:
  assumes "p < 0x400"
  shows "is_high (unat (of_nat (0xD800 + p) :: code_unit))"
    "is_low (unat (of_nat (0xDC00 + p) :: code_unit))"
proof -
  have "unat (of_nat (0xD800 + p) :: code_unit) = 0xD800 + p"
    by (rule unat_of_nat_unit) (use assms in simp)
  moreover have "unat (of_nat (0xDC00 + p) :: code_unit) = 0xDC00 + p"
    by (rule unat_of_nat_unit) (use assms in simp)
  ultimately show "is_high (unat (of_nat (0xD800 + p) :: code_unit))"
    "is_low (unat (of_nat (0xDC00 + p) :: code_unit))"
    using assms by (simp_all add: is_high_def is_low_def)
qed

lemma well_formed_Cons:
  "\<not> is_high (unat u) \<Longrightarrow> \<not> is_low (unat u) \<Longrightarrow> well_formed s \<Longrightarrow> well_formed (u # s)"
  by (cases s) simp_all

lemma well_formed_units:
  assumes "scalar c" "well_formed s"
  shows "well_formed (utf16_units c @ s)"
proof (cases "c < 0x10000")
  case True
  then show ?thesis
    using unit_scalar_small [OF assms(1) True] assms(2)
    by (simp add: utf16_units_def well_formed_Cons)
next
  case False
  then have r: "0x10000 \<le> c" "c < 0x110000"
    using assms(1) by (simp_all add: scalar_def)
  show ?thesis
    using False assms(2) unit_high_low [OF pair_parts(1) [OF r]]
      unit_high_low [OF pair_parts(2) [OF r]]
    by (simp add: utf16_units_def)
qed

lemma well_formed_concat:
  "\<forall>c \<in> set cs. scalar c \<Longrightarrow> well_formed (concat (map utf16_units cs))"
  by (induction cs) (simp_all add: well_formed_units)

lemma toString_utf8_well_formed: "well_formed (toString_utf8 buf)"
  by (simp add: toString_utf8_def well_formed_concat utf8_decode_scalar)

text \<open>The definitions unfolded to evaluate the codec and the gate at the sample values.\<close>

lemmas ev = lit_def startsWith_def slice_from_def ADMIN_TOKEN_def ADMIN_EMAIL_def ADMIN_PASSWORD_def
  unset_def env_x_def env_none_def served_def down_def bob_def bare_def with_token_def
  bearer_token_def decodeAdminEmail_def decodeAdminEmail_via_def encodeAdminToken_def
  Buffer_from_base64_def unbase64_def toString_utf8_def Buffer_from_utf8_def utf8_bytes_def
  utf16_units_def b64_char_def pad_def lone_def is_high_def is_low_def cont_def second3_def
  second4_def findAdminByEmail_def select_admin_user_def Let_def toy_matches_def
  truthy_def js_or_def strict_eq_def filter_text_def bcrypt_compare_def creds_def toy_render_def


section \<open>Properties of the token codec\<close>

text \<open>
  C3. For every valid email string \<open>email\<close>, that is every string without an unpaired
  surrogate, decoding the token that encodes \<open>email\<close> gives \<open>email\<close> back, whatever shared
  secret is configured.
\<close>

theorem decode_encode:
  "well_formed email \<Longrightarrow> decodeAdminEmail e (encodeAdminToken e email) = Some email"
  by (simp add: decodeAdminEmail_def decodeAdminEmail_via_def encodeAdminToken_def
      startsWith_def slice_from_def length_lit Buffer_from_base64_def base64_roundtrip
      string_roundtrip)

theorem decode_encode_witness:
  "well_formed (lit ''admin@x.com'') \<and>
   decodeAdminEmail
     \<lparr>env_ADMIN_EMAIL = None, env_ADMIN_PASSWORD = None, env_ADMIN_TOKEN = None\<rparr>
     (encodeAdminToken
        \<lparr>env_ADMIN_EMAIL = None, env_ADMIN_PASSWORD = None, env_ADMIN_TOKEN = None\<rparr>
        (lit ''admin@x.com''))
   = Some (lit ''admin@x.com'')"
proof -
  have wf: "well_formed (lit ''admin@x.com'')"
    by (simp add: lit_def is_high_def is_low_def)
  show ?thesis
    using wf decode_encode [OF wf] by simp
qed

text \<open>
  C4, as stated, fails in two places. A token that begins with the shared secret and a dot
  but goes on with characters that are not base64 is malformed, and the result is not
  \<open>null\<close>: the decoder of the platform skips the characters and the result is the empty
  string. And a token that is not a string makes the call raise.
\<close>

theorem decodeAdminEmail_malformed_counterexample:
  "startsWith (lit ''goftus-admin-token.@@@'') (ADMIN_TOKEN env_x @ lit ''.'') \<and>
   decodeAdminEmail env_x (lit ''goftus-admin-token.@@@'') = Some [] \<and>
   decodeAdminEmail env_x (lit ''goftus-admin-token.@@@'') \<noteq> None \<and>
   decodeAdminEmail_call env_x Undefined = Inl TypeError"
  by (simp add: decodeAdminEmail_call_def ev)

text \<open>
  C4, amended. For every token that is a string, \<open>decodeAdminEmail\<close> returns and does not
  raise (a value that is not a string is the only one that raises). It returns \<open>null\<close>
  whenever the token does not begin with the shared secret followed by a dot. Only a token
  with that prefix yields an email, and every email it yields is a string without unpaired
  surrogates. For the prefix followed by the base64 encoding of any bytes, the result is
  those bytes read as UTF-8.
\<close>

theorem decodeAdminEmail_on_strings:
  "((\<exists>r. decodeAdminEmail_call e v = Inr r) \<longleftrightarrow> (\<exists>token. v = Str token)) \<and>
   (\<not> startsWith token (ADMIN_TOKEN e @ lit ''.'') \<longrightarrow>
      decodeAdminEmail_call e (Str token) = Inr None) \<and>
   (\<forall>email. decodeAdminEmail_call e (Str token) = Inr (Some email) \<longrightarrow>
      startsWith token (ADMIN_TOKEN e @ lit ''.'') \<and> well_formed email) \<and>
   decodeAdminEmail_call e (Str (ADMIN_TOKEN e @ lit ''.'' @ toString_base64 buf))
     = Inr (Some (toString_utf8 buf))"
proof (intro conjI allI impI)
  show "(\<exists>r. decodeAdminEmail_call e v = Inr r) \<longleftrightarrow> (\<exists>token. v = Str token)"
    by (cases v) (simp_all add: decodeAdminEmail_call_def)
next
  assume "\<not> startsWith token (ADMIN_TOKEN e @ lit ''.'')"
  then show "decodeAdminEmail_call e (Str token) = Inr None"
    by (simp add: decodeAdminEmail_call_def decodeAdminEmail_def decodeAdminEmail_via_def)
next
  fix email
  assume a: "decodeAdminEmail_call e (Str token) = Inr (Some email)"
  then show "startsWith token (ADMIN_TOKEN e @ lit ''.'')"
    by (simp add: decodeAdminEmail_call_def decodeAdminEmail_def decodeAdminEmail_via_def
        split: if_splits)
  from a have "email = toString_utf8 (unpack (sextets
      (slice_from (length (ADMIN_TOKEN e) + 1) token)))"
    by (simp add: decodeAdminEmail_call_def decodeAdminEmail_def decodeAdminEmail_via_def
        Buffer_from_base64_def split: if_splits)
  then show "well_formed email"
    by (simp add: toString_utf8_well_formed)
next
  show "decodeAdminEmail_call e (Str (ADMIN_TOKEN e @ lit ''.'' @ toString_base64 buf))
     = Inr (Some (toString_utf8 buf))"
    by (simp add: decodeAdminEmail_call_def decodeAdminEmail_def decodeAdminEmail_via_def
        startsWith_def slice_from_def length_lit Buffer_from_base64_def base64_roundtrip)
qed

theorem decodeAdminEmail_on_strings_witness:
  "(\<exists>r. decodeAdminEmail_call env_x (Str (lit ''nope'')) = Inr r) \<and>
   \<not> startsWith (lit ''nope'') (ADMIN_TOKEN env_x @ lit ''.'') \<and>
   decodeAdminEmail_call env_x (Str (lit ''nope'')) = Inr None \<and>
   decodeAdminEmail_call env_x (Str (lit ''goftus-admin-token.YQ=='')) = Inr (Some (lit ''a'')) \<and>
   startsWith (lit ''goftus-admin-token.YQ=='') (ADMIN_TOKEN env_x @ lit ''.'') \<and>
   well_formed (lit ''a'') \<and>
   decodeAdminEmail_call env_x (Str (lit ''goftus-admin-token./w=='')) = Inr (Some [0xFFFD])"
proof -
  have n: "\<not> startsWith (lit ''nope'') (ADMIN_TOKEN env_x @ lit ''.'')"
    by (simp add: ev)
  have t1: "ADMIN_TOKEN env_x @ lit ''.'' @ toString_base64 [97] = lit ''goftus-admin-token.YQ==''"
    and t2: "ADMIN_TOKEN env_x @ lit ''.'' @ toString_base64 [255] = lit ''goftus-admin-token./w==''"
    and u1: "toString_utf8 [97] = lit ''a''" and u2: "toString_utf8 [255] = [0xFFFD]"
    by (simp_all add: ev)
  note T = decodeAdminEmail_on_strings [where e = env_x]
  have r0: "\<exists>r. decodeAdminEmail_call env_x (Str (lit ''nope'')) = Inr r"
    using T [of "Str (lit ''nope'')"] by blast
  have r1: "decodeAdminEmail_call env_x (Str (lit ''nope'')) = Inr None"
    using T [where token = "lit ''nope''"] n by blast
  have r2: "decodeAdminEmail_call env_x (Str (lit ''goftus-admin-token.YQ=='')) = Inr (Some (lit ''a''))"
    using T [where buf = "[97]"] unfolding t1 u1 by blast
  have r3: "startsWith (lit ''goftus-admin-token.YQ=='') (ADMIN_TOKEN env_x @ lit ''.'') \<and>
      well_formed (lit ''a'')"
    using T [where token = "lit ''goftus-admin-token.YQ==''"] r2 by blast
  have r4: "decodeAdminEmail_call env_x (Str (lit ''goftus-admin-token./w=='')) = Inr (Some [0xFFFD])"
    using T [where buf = "[255]"] unfolding t2 u2 by blast
  show ?thesis
    using n r0 r1 r2 r3 r4 by blast
qed

section \<open>Properties of the admin access gate\<close>

lemma select_admin_user_miss:
  "e \<notin> user_email ` set users \<Longrightarrow> select_admin_user rp users e \<noteq> Inr (Some u)"
proof -
  assume "e \<notin> user_email ` set users"
  then have "filter (\<lambda>u. user_email u = e) users = []"
    by (auto simp: filter_empty_conv)
  then show ?thesis
    by (simp add: select_admin_user_def split: option.splits)
qed

lemma findAdminByEmail_unknown:
  assumes "Some em \<noteq> ADMIN_EMAIL e" and "em \<notin> user_email ` set users"
  shows "findAdminByEmail e rp users (Some em) = None"
  using assms select_admin_user_miss [OF assms(2), of rp]
  by (auto simp: findAdminByEmail_def split: sum.splits option.splits)

lemma findAdminByEmail_super:
  "findAdminByEmail e rp users email = Some a \<Longrightarrow>
   admin_isSuperAdmin a \<longleftrightarrow> (\<not> unset (ADMIN_EMAIL e) \<and> email = ADMIN_EMAIL e)"
  by (auto simp: findAdminByEmail_def unset_def split: option.splits if_splits sum.splits)

lemma requireAdmin_Next:
  "requireAdmin e rp users req = Next req' \<longleftrightarrow>
     \<not> unset (ADMIN_EMAIL e) \<and> \<not> unset (ADMIN_PASSWORD e) \<and> bearer_token req \<noteq> [] \<and>
     (\<exists>a. findAdminByEmail e rp users (decodeAdminEmail e (bearer_token req)) = Some a \<and>
          req' = req\<lparr>adminEmail := Some (admin_email a),
                     isSuperAdmin := Some (admin_isSuperAdmin a)\<rparr>)"
  by (auto simp: requireAdmin_def Let_def split: option.splits)

text \<open>
  C5, as stated, fails when the primary admin is not configured: a request without an
  \<open>Authorization\<close> header is then answered with 500, not with 401.
\<close>

theorem requireAdmin_unconfigured_counterexample:
  "requireAdmin env_none served [] bare
     = Respond 500 (Error_body (lit ''Admin credentials not configured'')) \<and>
   requireAdmin env_none served [] bare \<noteq> Respond 401 (Error_body (lit ''Unauthorized''))"
  by (simp add: requireAdmin_def ev)

text \<open>
  C5, amended. When the primary admin email and password are both configured,
  \<open>requireAdmin\<close> answers 401 Unauthorized whenever the bearer token is absent (no header,
  or an empty token), undecodable, or decodes to an email that is neither the primary admin
  email nor the email of a row of \<open>admin_users\<close> (more generally, whenever the lookup finds
  no identity); and when the token is present and resolves to an identity, it attaches that
  identity's email and privilege flag to the request and calls \<open>next()\<close>.
\<close>

theorem requireAdmin_configured:
  assumes "\<not> unset (ADMIN_EMAIL e)" and "\<not> unset (ADMIN_PASSWORD e)"
  shows
    "(authorization req = None \<longrightarrow>
        requireAdmin e rp users req = Respond 401 (Error_body (lit ''Unauthorized''))) \<and>
     (bearer_token req = [] \<or> decodeAdminEmail e (bearer_token req) = None \<or>
      (\<exists>em. decodeAdminEmail e (bearer_token req) = Some em \<and> Some em \<noteq> ADMIN_EMAIL e \<and>
            em \<notin> user_email ` set users) \<longrightarrow>
        requireAdmin e rp users req = Respond 401 (Error_body (lit ''Unauthorized''))) \<and>
     (findAdminByEmail e rp users (decodeAdminEmail e (bearer_token req)) = None \<longrightarrow>
        requireAdmin e rp users req = Respond 401 (Error_body (lit ''Unauthorized''))) \<and>
     (bearer_token req \<noteq> [] \<longrightarrow>
      (\<forall>a. findAdminByEmail e rp users (decodeAdminEmail e (bearer_token req)) = Some a \<longrightarrow>
        requireAdmin e rp users req =
          Next (req\<lparr>adminEmail := Some (admin_email a),
                    isSuperAdmin := Some (admin_isSuperAdmin a)\<rparr>)))"
proof -
  have none: "authorization req = None \<Longrightarrow> bearer_token req = []"
    by (simp add: bearer_token_def startsWith_def lit_def)
  have dec: "decodeAdminEmail e (bearer_token req) = None \<Longrightarrow>
      findAdminByEmail e rp users (decodeAdminEmail e (bearer_token req)) = None"
    by (simp add: findAdminByEmail_def)
  have unk: "\<And>em. decodeAdminEmail e (bearer_token req) = Some em \<Longrightarrow> Some em \<noteq> ADMIN_EMAIL e \<Longrightarrow>
      em \<notin> user_email ` set users \<Longrightarrow>
      findAdminByEmail e rp users (decodeAdminEmail e (bearer_token req)) = None"
    by (simp add: findAdminByEmail_unknown)
  have fail: "bearer_token req = [] \<or>
      findAdminByEmail e rp users (decodeAdminEmail e (bearer_token req)) = None \<Longrightarrow>
      requireAdmin e rp users req = Respond 401 (Error_body (lit ''Unauthorized''))"
    using assms by (auto simp: requireAdmin_def Let_def)
  have pass: "\<And>a. bearer_token req \<noteq> [] \<Longrightarrow>
      findAdminByEmail e rp users (decodeAdminEmail e (bearer_token req)) = Some a \<Longrightarrow>
      requireAdmin e rp users req =
        Next (req\<lparr>adminEmail := Some (admin_email a), isSuperAdmin := Some (admin_isSuperAdmin a)\<rparr>)"
    using assms by (simp add: requireAdmin_def Let_def)
  show ?thesis
  proof (intro conjI impI allI)
    assume "authorization req = None"
    then show "requireAdmin e rp users req = Respond 401 (Error_body (lit ''Unauthorized''))"
      using none fail by simp
  next
    assume "bearer_token req = [] \<or> decodeAdminEmail e (bearer_token req) = None \<or>
      (\<exists>em. decodeAdminEmail e (bearer_token req) = Some em \<and> Some em \<noteq> ADMIN_EMAIL e \<and>
            em \<notin> user_email ` set users)"
    then have "bearer_token req = [] \<or>
      findAdminByEmail e rp users (decodeAdminEmail e (bearer_token req)) = None"
      using dec unk by auto
    then show "requireAdmin e rp users req = Respond 401 (Error_body (lit ''Unauthorized''))"
      by (rule fail)
  next
    assume "findAdminByEmail e rp users (decodeAdminEmail e (bearer_token req)) = None"
    then show "requireAdmin e rp users req = Respond 401 (Error_body (lit ''Unauthorized''))"
      using fail by simp
  next
    fix a
    assume "bearer_token req \<noteq> []"
      and "findAdminByEmail e rp users (decodeAdminEmail e (bearer_token req)) = Some a"
    then show "requireAdmin e rp users req =
        Next (req\<lparr>adminEmail := Some (admin_email a), isSuperAdmin := Some (admin_isSuperAdmin a)\<rparr>)"
      by (rule pass)
  qed
qed

theorem requireAdmin_configured_witness:
  "\<not> unset (ADMIN_EMAIL env_x) \<and> \<not> unset (ADMIN_PASSWORD env_x) \<and>
   authorization bare = None \<and>
   requireAdmin env_x served [bob] bare = Respond 401 (Error_body (lit ''Unauthorized'')) \<and>
   decodeAdminEmail env_x (bearer_token (with_token (lit ''goftus-admin-token.bWFsQHguY29t'')))
     = Some (lit ''mal@x.com'') \<and>
   requireAdmin env_x served [bob] (with_token (lit ''goftus-admin-token.bWFsQHguY29t''))
     = Respond 401 (Error_body (lit ''Unauthorized'')) \<and>
   bearer_token (with_token (lit ''goftus-admin-token.Ym9iQHguY29t'')) \<noteq> [] \<and>
   findAdminByEmail env_x served [bob]
     (decodeAdminEmail env_x (bearer_token (with_token (lit ''goftus-admin-token.Ym9iQHguY29t''))))
     = Some \<lparr>admin_id = Some 7, admin_email = lit ''bob@x.com'', admin_isSuperAdmin = False\<rparr> \<and>
   requireAdmin env_x served [bob] (with_token (lit ''goftus-admin-token.Ym9iQHguY29t''))
     = Next \<lparr>authorization = Some (lit ''Bearer goftus-admin-token.Ym9iQHguY29t''),
             adminEmail = Some (lit ''bob@x.com''), isSuperAdmin = Some False\<rparr>"
proof -
  have c1: "\<not> unset (ADMIN_EMAIL env_x)" and c2: "\<not> unset (ADMIN_PASSWORD env_x)"
    by (simp_all add: ev)
  have h0: "authorization bare = None"
    by (simp add: ev)
  have h1: "decodeAdminEmail env_x (bearer_token (with_token (lit ''goftus-admin-token.bWFsQHguY29t'')))
     = Some (lit ''mal@x.com'')"
    by (simp add: ev)
  have h1': "Some (lit ''mal@x.com'') \<noteq> ADMIN_EMAIL env_x"
    "lit ''mal@x.com'' \<notin> user_email ` set [bob]"
    by (simp_all add: ev)
  have h2: "bearer_token (with_token (lit ''goftus-admin-token.Ym9iQHguY29t'')) \<noteq> []"
    by (simp add: ev)
  have h3: "findAdminByEmail env_x served [bob]
     (decodeAdminEmail env_x (bearer_token (with_token (lit ''goftus-admin-token.Ym9iQHguY29t''))))
     = Some \<lparr>admin_id = Some 7, admin_email = lit ''bob@x.com'', admin_isSuperAdmin = False\<rparr>"
    by (simp add: ev)
  note T = requireAdmin_configured [OF c1 c2, of _ served "[bob]"]
  have r0: "requireAdmin env_x served [bob] bare = Respond 401 (Error_body (lit ''Unauthorized''))"
    using T [of bare] h0 by blast
  have r1: "requireAdmin env_x served [bob] (with_token (lit ''goftus-admin-token.bWFsQHguY29t''))
     = Respond 401 (Error_body (lit ''Unauthorized''))"
    using T [of "with_token (lit ''goftus-admin-token.bWFsQHguY29t'')"] h1 h1' by blast
  have r2: "requireAdmin env_x served [bob] (with_token (lit ''goftus-admin-token.Ym9iQHguY29t''))
     = Next ((with_token (lit ''goftus-admin-token.Ym9iQHguY29t''))
          \<lparr>adminEmail := Some (admin_email \<lparr>admin_id = Some 7, admin_email = lit ''bob@x.com'', admin_isSuperAdmin = False\<rparr>),
           isSuperAdmin := Some (admin_isSuperAdmin \<lparr>admin_id = Some 7, admin_email = lit ''bob@x.com'', admin_isSuperAdmin = False\<rparr>)\<rparr>)"
    using T [of "with_token (lit ''goftus-admin-token.Ym9iQHguY29t'')"] h2 h3 by blast
  have r2': "requireAdmin env_x served [bob] (with_token (lit ''goftus-admin-token.Ym9iQHguY29t''))
     = Next \<lparr>authorization = Some (lit ''Bearer goftus-admin-token.Ym9iQHguY29t''),
             adminEmail = Some (lit ''bob@x.com''), isSuperAdmin = Some False\<rparr>"
    unfolding r2 by (simp add: with_token_def lit_def)
  show ?thesis
    using c1 c2 h0 h1 h2 h3 r0 r1 r2' by blast
qed

text \<open>
  C6. For a request whose token \<open>requireAdmin\<close> resolves to an admin identity (it passes
  the request on as \<open>req'\<close>, with the identity attached), \<open>requireSuperAdmin\<close> calls
  \<open>next()\<close> if and only if that identity is the super-admin, the one whose email is the
  configured primary admin email; for any other identity it answers 403 Forbidden.
\<close>

theorem requireSuperAdmin_iff:
  assumes "requireAdmin e rp users req = Next req'"
  shows
    "(isSuperAdmin req' = Some True \<longleftrightarrow> decodeAdminEmail e (bearer_token req) = ADMIN_EMAIL e) \<and>
     ((\<exists>r. requireSuperAdmin e rp users req = Next r) \<longleftrightarrow> isSuperAdmin req' = Some True) \<and>
     (isSuperAdmin req' = Some True \<longrightarrow> requireSuperAdmin e rp users req = Next req') \<and>
     (isSuperAdmin req' \<noteq> Some True \<longrightarrow>
        requireSuperAdmin e rp users req = Respond 403 (Error_body (lit ''Forbidden'')))"
proof -
  from assms obtain a where
    conf: "\<not> unset (ADMIN_EMAIL e)" and
    a: "findAdminByEmail e rp users (decodeAdminEmail e (bearer_token req)) = Some a" and
    r: "req' = req\<lparr>adminEmail := Some (admin_email a), isSuperAdmin := Some (admin_isSuperAdmin a)\<rparr>"
    unfolding requireAdmin_Next by blast
  have 1: "isSuperAdmin req' = Some True \<longleftrightarrow> decodeAdminEmail e (bearer_token req) = ADMIN_EMAIL e"
    using findAdminByEmail_super [OF a] conf by (simp add: r)
  have 2: "requireSuperAdmin e rp users req =
      (if isSuperAdmin req' \<noteq> Some True then Respond 403 (Error_body (lit ''Forbidden''))
       else Next req')"
    by (simp add: requireSuperAdmin_def assms)
  show ?thesis
    using 1 2 by auto
qed

theorem requireSuperAdmin_iff_witness:
  "requireAdmin env_x served [bob] (with_token (lit ''goftus-admin-token.YWRtaW5AeC5jb20=''))
     = Next \<lparr>authorization = Some (lit ''Bearer goftus-admin-token.YWRtaW5AeC5jb20=''),
             adminEmail = Some (lit ''admin@x.com''), isSuperAdmin = Some True\<rparr> \<and>
   requireSuperAdmin env_x served [bob] (with_token (lit ''goftus-admin-token.YWRtaW5AeC5jb20=''))
     = Next \<lparr>authorization = Some (lit ''Bearer goftus-admin-token.YWRtaW5AeC5jb20=''),
             adminEmail = Some (lit ''admin@x.com''), isSuperAdmin = Some True\<rparr> \<and>
   requireAdmin env_x served [bob] (with_token (lit ''goftus-admin-token.Ym9iQHguY29t''))
     = Next \<lparr>authorization = Some (lit ''Bearer goftus-admin-token.Ym9iQHguY29t''),
             adminEmail = Some (lit ''bob@x.com''), isSuperAdmin = Some False\<rparr> \<and>
   requireSuperAdmin env_x served [bob] (with_token (lit ''goftus-admin-token.Ym9iQHguY29t''))
     = Respond 403 (Error_body (lit ''Forbidden''))"
proof -
  have a: "requireAdmin env_x served [bob] (with_token (lit ''goftus-admin-token.YWRtaW5AeC5jb20=''))
     = Next \<lparr>authorization = Some (lit ''Bearer goftus-admin-token.YWRtaW5AeC5jb20=''),
             adminEmail = Some (lit ''admin@x.com''), isSuperAdmin = Some True\<rparr>"
    by (simp add: requireAdmin_def ev)
  have b: "requireAdmin env_x served [bob] (with_token (lit ''goftus-admin-token.Ym9iQHguY29t''))
     = Next \<lparr>authorization = Some (lit ''Bearer goftus-admin-token.Ym9iQHguY29t''),
             adminEmail = Some (lit ''bob@x.com''), isSuperAdmin = Some False\<rparr>"
    by (simp add: requireAdmin_def ev)
  show ?thesis
    using a b requireSuperAdmin_iff [OF a] requireSuperAdmin_iff [OF b] by simp
qed

text \<open>
  C7. When the primary admin configuration is absent (already when the email or the
  password alone is missing), \<open>requireAdmin\<close>, \<open>requireSuperAdmin\<close>, every route mounted
  behind them and the login endpoint answer 500, whatever token or credentials the request
  carries; the handler behind the guard does not run.
\<close>

theorem unconfigured_500:
  assumes "unset (ADMIN_EMAIL e) \<or> unset (ADMIN_PASSWORD e)"
  shows
    "requireAdmin e rp users req
       = Respond 500 (Error_body (lit ''Admin credentials not configured'')) \<and>
     requireSuperAdmin e rp users req
       = Respond 500 (Error_body (lit ''Admin credentials not configured'')) \<and>
     route (requireAdmin e rp users req) handler w
       = (Respond 500 (Error_body (lit ''Admin credentials not configured'')), w) \<and>
     route (requireSuperAdmin e rp users req) handler w
       = (Respond 500 (Error_body (lit ''Admin credentials not configured'')), w) \<and>
     login e render matches rp users body
       = Respond 500 (Error_body (lit ''Admin credentials not configured''))"
proof -
  have 1: "requireAdmin e rp users req
       = Respond 500 (Error_body (lit ''Admin credentials not configured''))"
    using assms by (auto simp: requireAdmin_def Let_def)
  have 2: "login e render matches rp users body
       = Respond 500 (Error_body (lit ''Admin credentials not configured''))"
    using assms by (auto simp: login_def Let_def)
  show ?thesis
    by (simp add: 1 2 requireSuperAdmin_def route_def)
qed

theorem unconfigured_500_witness:
  "(unset (ADMIN_EMAIL env_none) \<or> unset (ADMIN_PASSWORD env_none)) \<and>
   requireAdmin env_none served [bob] (with_token (lit ''goftus-admin-token.Ym9iQHguY29t''))
     = Respond 500 (Error_body (lit ''Admin credentials not configured'')) \<and>
   route (requireAdmin env_none served [bob] (with_token (lit ''goftus-admin-token.Ym9iQHguY29t'')))
     (\<lambda>req' w. (Respond 200 (Banners_body []), Suc w)) (0 :: nat)
     = (Respond 500 (Error_body (lit ''Admin credentials not configured'')), 0) \<and>
   login env_none toy_render toy_matches served [bob]
     (creds (Str (lit ''bob@x.com'')) (Str (lit ''pw'')))
     = Respond 500 (Error_body (lit ''Admin credentials not configured''))"
proof -
  have u: "unset (ADMIN_EMAIL env_none) \<or> unset (ADMIN_PASSWORD env_none)"
    by (simp add: ev)
  show ?thesis
    using u
      unconfigured_500 [OF u, of served "[bob]"
        "with_token (lit ''goftus-admin-token.Ym9iQHguY29t'')"
        "\<lambda>req' w. (Respond 200 (Banners_body []), Suc w)" "0 :: nat"
        toy_render toy_matches "creds (Str (lit ''bob@x.com'')) (Str (lit ''pw''))"]
    by blast
qed

text \<open>
  C8, as stated, fails in two places: without the primary admin configuration a login
  with the right password of a stored account is answered with 500; and a password that is
  a number, sent for a stored account, makes the password comparison reject, so the handler
  sends no response at all.
\<close>

theorem login_counterexample:
  "login env_none toy_render toy_matches served [bob]
     (creds (Str (lit ''bob@x.com'')) (Str (lit ''pw'')))
     = Respond 500 (Error_body (lit ''Admin credentials not configured'')) \<and>
   login env_x toy_render toy_matches served [bob]
     (creds (Str (lit ''bob@x.com'')) (Number 123))
     = Rejected Illegal_arguments"
  by (simp add: login_def ev)

text \<open>
  C8, amended. For every login request made while the primary admin email and password are
  configured and whose password is a string or is missing (then the empty string \<open>p\<close> is
  compared): if the candidate (email, else username) and the password are exactly the
  configured pair, the response is 200 with a token for that email and \<open>isSuperAdmin\<close>
  true; otherwise, if the lookup by the candidate returns a row and \<open>p\<close> matches its hash,
  the response is 200 with a token for the row's email and \<open>isSuperAdmin\<close> false; in every
  other case (no row, a failed lookup, a hash that does not match) it is 401 Invalid
  credentials.
\<close>

theorem login_configured:
  assumes "ADMIN_EMAIL e = Some a" and "a \<noteq> []"
    and "ADMIN_PASSWORD e = Some pw" and "pw \<noteq> []"
    and "js_or (password_field body) (Str []) = Str p"
  shows
    "(js_or (email_field body) (username_field body) = Str a \<and> password_field body = Str pw \<longrightarrow>
        login e render matches rp users body
          = Respond 200 (Login_body (encodeAdminToken e a) a True)) \<and>
     (\<not> (js_or (email_field body) (username_field body) = Str a \<and> password_field body = Str pw) \<longrightarrow>
        (\<forall>u. select_admin_user rp users
               (filter_text render (js_or (email_field body) (username_field body)))
               = Inr (Some u) \<and>
             matches p (case password_hash u of None \<Rightarrow> [] | Some h \<Rightarrow> h) \<longrightarrow>
           login e render matches rp users body
             = Respond 200 (Login_body (encodeAdminToken e (user_email u)) (user_email u) False)) \<and>
        ((\<forall>u. select_admin_user rp users
               (filter_text render (js_or (email_field body) (username_field body)))
               = Inr (Some u) \<longrightarrow>
             \<not> matches p (case password_hash u of None \<Rightarrow> [] | Some h \<Rightarrow> h)) \<longrightarrow>
           login e render matches rp users body
             = Respond 401 (Error_body (lit ''Invalid credentials''))))"
  using assms
  by (auto simp: login_def Let_def unset_def strict_eq_def bcrypt_compare_def
      split: sum.splits option.splits)

theorem login_configured_witness:
  "ADMIN_EMAIL env_x = Some (lit ''admin@x.com'') \<and> lit ''admin@x.com'' \<noteq> [] \<and>
   ADMIN_PASSWORD env_x = Some (lit ''secret'') \<and> lit ''secret'' \<noteq> [] \<and>
   login env_x toy_render toy_matches served [bob]
     (creds (Str (lit ''admin@x.com'')) (Str (lit ''secret'')))
     = Respond 200 (Login_body (lit ''goftus-admin-token.YWRtaW5AeC5jb20='') (lit ''admin@x.com'') True) \<and>
   login env_x toy_render toy_matches served [bob]
     (creds (Str (lit ''admin@x.com'')) (Str (lit ''wrong'')))
     = Respond 401 (Error_body (lit ''Invalid credentials'')) \<and>
   login env_x toy_render toy_matches served [bob]
     (creds (Str (lit ''bob@x.com'')) (Str (lit ''pw'')))
     = Respond 200 (Login_body (lit ''goftus-admin-token.Ym9iQHguY29t'') (lit ''bob@x.com'') False) \<and>
   login env_x toy_render toy_matches served [bob]
     (creds (Str (lit ''bob@x.com'')) Undefined)
     = Respond 401 (Error_body (lit ''Invalid credentials''))"
proof -
  have c: "ADMIN_EMAIL env_x = Some (lit ''admin@x.com'')" "lit ''admin@x.com'' \<noteq> []"
    "ADMIN_PASSWORD env_x = Some (lit ''secret'')" "lit ''secret'' \<noteq> []"
    by (simp_all add: ev)
  note T = login_configured [OF c, where render = toy_render and rp = served
      and users = "[bob]" and matches = toy_matches]
  have p1: "js_or (password_field (creds (Str (lit ''admin@x.com'')) (Str (lit ''secret'')))) (Str [])
      = Str (lit ''secret'')"
    and p2: "js_or (password_field (creds (Str (lit ''admin@x.com'')) (Str (lit ''wrong'')))) (Str [])
      = Str (lit ''wrong'')"
    and p3: "js_or (password_field (creds (Str (lit ''bob@x.com'')) (Str (lit ''pw'')))) (Str [])
      = Str (lit ''pw'')"
    and p4: "js_or (password_field (creds (Str (lit ''bob@x.com'')) Undefined)) (Str []) = Str []"
    by (simp_all add: ev)
  have e1: "encodeAdminToken env_x (lit ''admin@x.com'') = lit ''goftus-admin-token.YWRtaW5AeC5jb20=''"
    and e2: "encodeAdminToken env_x (lit ''bob@x.com'') = lit ''goftus-admin-token.Ym9iQHguY29t''"
    by (simp_all add: ev)
  have r1: "login env_x toy_render toy_matches served [bob]
     (creds (Str (lit ''admin@x.com'')) (Str (lit ''secret'')))
     = Respond 200 (Login_body (lit ''goftus-admin-token.YWRtaW5AeC5jb20='') (lit ''admin@x.com'') True)"
    using T [OF p1] by (simp add: ev e1 [unfolded lit_def])
  have r2: "login env_x toy_render toy_matches served [bob]
     (creds (Str (lit ''admin@x.com'')) (Str (lit ''wrong'')))
     = Respond 401 (Error_body (lit ''Invalid credentials''))"
    using T [OF p2] by (simp add: ev)
  have r3: "login env_x toy_render toy_matches served [bob]
     (creds (Str (lit ''bob@x.com'')) (Str (lit ''pw'')))
     = Respond 200 (Login_body (lit ''goftus-admin-token.Ym9iQHguY29t'') (lit ''bob@x.com'') False)"
    using T [OF p3] by (simp add: ev e2 [unfolded lit_def])
  have r4: "login env_x toy_render toy_matches served [bob]
     (creds (Str (lit ''bob@x.com'')) Undefined)
     = Respond 401 (Error_body (lit ''Invalid credentials''))"
    using T [OF p4] by (simp add: ev)
  show ?thesis
    using c r1 r2 r3 r4 by blast
qed

section \<open>Properties of the banner handlers\<close>

text \<open>The definitions unfolded to evaluate the handlers at the sample values.\<close>

lemmas evb = bn_def w0_def new_active_def set_active_def served_def down_def lit_def
  post_banner_activate_def put_banner_def post_banners_def post_payload_def put_payload_def
  update_neq_def update_eq_single_def insert_banner_def get_banners_def apply_patch_def
  deactivate_def activate_def no_change_def column_text_def truthy_def js_or_def Let_def
  toy_render_def

lemma deactivate_neq [simp]: "deactivate \<noteq> no_change" "activate \<noteq> no_change"
  by (simp_all add: deactivate_def activate_def no_change_def)

lemma apply_patch_id [simp]: "banner_id (apply_patch t p b) = banner_id b"
  by (simp add: apply_patch_def)

lemma apply_patch_active [simp]:
  "is_active (apply_patch t deactivate b) = False" "is_active (apply_patch t activate b) = True"
  by (simp_all add: apply_patch_def deactivate_def activate_def no_change_def)

lemma apply_patch_set_active:
  "set_is_active p = Some v \<Longrightarrow> is_active (apply_patch t p b) = v"
  by (simp add: apply_patch_def)

lemma put_payload_active:
  "set_is_active (put_payload body) = Some True \<longleftrightarrow> is_active_field body = Bool True"
  by (auto simp: put_payload_def split: jsval.splits)

lemma set_active_change: "set_is_active p = Some v \<Longrightarrow> p \<noteq> no_change"
  by (auto simp: no_change_def)

lemma filter_id_distinct:
  "distinct (map banner_id rows) \<Longrightarrow> B \<in> set rows \<Longrightarrow>
   filter (\<lambda>b. banner_id b = banner_id B) rows = [B]"
proof (induction rows)
  case Nil
  then show ?case by simp
next
  case (Cons a rows)
  show ?case
  proof (cases "a = B")
    case True
    have "filter (\<lambda>b. banner_id b = banner_id B) rows = []"
      using Cons.prems(1) True by (fastforce simp: filter_empty_conv image_iff)
    then show ?thesis using True by simp
  next
    case False
    then have "B \<in> set rows" using Cons.prems(2) by simp
    moreover have "banner_id a \<noteq> banner_id B"
      using Cons.prems(1) calculation by (fastforce simp: image_iff)
    ultimately show ?thesis using Cons by simp
  qed
qed

lemma filter_id_missing:
  "i \<notin> banner_id ` set rows \<Longrightarrow> filter (\<lambda>b. banner_id b = i \<and> P) rows = []"
  by (auto simp: filter_empty_conv)

text \<open>What the two backend calls do when they are served and when they fail.\<close>

lemma update_neq_served:
  "fault rp = None \<Longrightarrow> p \<noteq> no_change \<Longrightarrow>
   update_neq rp p i w =
     (None, w\<lparr>calls := calls w @ [Update_neq i p],
             banners := map (\<lambda>b. if banner_id b \<noteq> i then apply_patch (now rp) p b else b)
                          (banners w)\<rparr>)"
  by (simp add: update_neq_def Let_def)

lemma update_neq_failed:
  "fault rp = Some m \<Longrightarrow>
   update_neq rp p i w = (Some (Backend m), w\<lparr>calls := calls w @ [Update_neq i p]\<rparr>)"
  by (simp add: update_neq_def Let_def)

lemma update_neq_calls: "calls (snd (update_neq rp p i w)) = calls w @ [Update_neq i p]"
  by (simp add: update_neq_def Let_def split: option.splits)

lemma update_neq_console: "console (snd (update_neq rp p i w)) = console w"
  by (simp add: update_neq_def Let_def split: option.splits)

lemma update_eq_single_calls: "calls (snd (update_eq_single rp p i w)) = calls w @ [Update_eq i p]"
  by (simp add: update_eq_single_def Let_def split: option.splits list.splits)

lemma update_eq_single_console: "console (snd (update_eq_single rp p i w)) = console w"
  by (simp add: update_eq_single_def Let_def split: option.splits list.splits)

lemma update_eq_single_hit:
  assumes "fault rp = None" and "p \<noteq> no_change"
    and "filter (\<lambda>b. banner_id b = i) (banners w) = [B]"
  shows "update_eq_single rp p i w =
     (Inr (apply_patch (now rp) p B),
      w\<lparr>calls := calls w @ [Update_eq i p],
        banners := map (\<lambda>b. if banner_id b = i then apply_patch (now rp) p b else b) (banners w)\<rparr>)"
  using assms by (simp add: update_eq_single_def Let_def)

lemma update_eq_single_miss:
  assumes "i \<notin> banner_id ` set (banners w)"
  shows "update_eq_single rp p i w =
     (Inl (case fault rp of Some m \<Rightarrow> Backend m | None \<Rightarrow> Not_single_row),
      w\<lparr>calls := calls w @ [Update_eq i p]\<rparr>)"
  using filter_id_missing [OF assms, of "p \<noteq> no_change"]
  by (simp add: update_eq_single_def Let_def split: option.splits)

lemma insert_banner_calls: "calls (snd (insert_banner cast rp p w)) = calls w @ [Insert p]"
  by (simp add: insert_banner_def Let_def split: option.splits)

lemma insert_banner_console: "console (snd (insert_banner cast rp p w)) = console w"
  by (simp add: insert_banner_def Let_def split: option.splits)

lemma swept_filter:
  "filter (\<lambda>b. banner_id b = i)
     (map (\<lambda>b. if banner_id b \<noteq> i then apply_patch t p b else b) rows)
   = filter (\<lambda>b. banner_id b = i) rows"
  by (induction rows) auto

lemma distinct_map_eq:
  "distinct (map f xs) \<Longrightarrow> x \<in> set xs \<Longrightarrow> y \<in> set xs \<Longrightarrow> f x = f y \<Longrightarrow> x = y"
  by (auto simp: distinct_map inj_on_def)

lemma map_id_twice:
  "map banner_id
     (map (\<lambda>b. if banner_id b = i then apply_patch t p b else b)
        (map (\<lambda>b. if banner_id b \<noteq> i then apply_patch t' p' b else b) rows))
   = map banner_id rows"
  by (induction rows) auto

lemma activate_rows:
  assumes "r \<in> set (map (\<lambda>b. if banner_id b = i then apply_patch t activate b else b)
                     (map (\<lambda>b. if banner_id b \<noteq> i then apply_patch t' deactivate b else b) rows))"
  shows "is_active r \<longleftrightarrow> banner_id r = i"
  using assms by auto

lemma post_banner_activate_served:
  assumes "distinct (map banner_id (banners w))" and "B \<in> set (banners w)"
    and "fault r1 = None" and "fault r2 = None"
  shows "post_banner_activate r1 r2 (banner_id B) w =
     (Respond 200 (Banner_body (apply_patch (now r2) activate B)),
      w\<lparr>calls := calls w @ [Update_neq (banner_id B) deactivate, Update_eq (banner_id B) activate],
        banners :=
          map (\<lambda>b. if banner_id b = banner_id B then apply_patch (now r2) activate b else b)
            (map (\<lambda>b. if banner_id b \<noteq> banner_id B then apply_patch (now r1) deactivate b else b)
               (banners w))\<rparr>)"
proof -
  let ?i = "banner_id B"
  let ?w1 = "w\<lparr>calls := calls w @ [Update_neq ?i deactivate],
               banners := map (\<lambda>b. if banner_id b \<noteq> ?i then apply_patch (now r1) deactivate b else b)
                            (banners w)\<rparr>"
  have s: "update_neq r1 deactivate ?i w = (None, ?w1)"
    using assms(3) by (simp add: update_neq_served)
  have f: "filter (\<lambda>b. banner_id b = ?i) (banners ?w1) = [B]"
    using filter_id_distinct [OF assms(1,2)] by (simp add: swept_filter)
  show ?thesis
    unfolding post_banner_activate_def s
    by (simp add: update_eq_single_hit [OF assms(4) deactivate_neq(2) f])
qed

lemma insert_banner_served:
  assumes "fault r1 = None" and "fresh r1 \<notin> banner_id ` set (banners w)"
  shows "\<exists>data. insert_banner cast r1 p w
           = (Inr data, w\<lparr>calls := calls w @ [Insert p], banners := banners w @ [data]\<rparr>) \<and>
         banner_id data = fresh r1 \<and> is_active data = new_is_active p"
  using assms by (simp add: insert_banner_def Let_def)

lemma post_banners_calls:
  assumes "truthy (product_field body)" and "truthy (message_field body)"
  shows "calls (snd (post_banners cast r1 r2 body w)) =
     (case fst (insert_banner cast r1 (post_payload body) w) of
        Inl error \<Rightarrow> calls w @ [Insert (post_payload body)]
      | Inr data \<Rightarrow>
          if truthy (is_active_field body)
          then calls w @ [Insert (post_payload body), Update_neq (banner_id data) deactivate]
          else calls w @ [Insert (post_payload body)])"
proof (cases "insert_banner cast r1 (post_payload body) w")
  case (Pair res w1)
  have c: "calls w1 = calls w @ [Insert (post_payload body)]"
    using insert_banner_calls [of cast r1 "post_payload body" w] Pair by simp
  show ?thesis
    using assms Pair c
    by (cases res) (simp_all add: post_banners_def Let_def update_neq_calls post_payload_def)
qed

lemma post_banners_sweep_failed:
  assumes "fault rs = Some m"
    and "truthy (product_field body)" and "truthy (message_field body)"
    and "truthy (is_active_field body)"
    and "fault r1 = None" and "fresh r1 \<notin> banner_id ` set (banners w)"
  shows "\<exists>data.
     post_banners cast r1 rs body w =
       (Respond 200 (Banner_body data),
        w\<lparr>calls := calls w @ [Insert (post_payload body), Update_neq (fresh r1) deactivate],
          banners := banners w @ [data]\<rparr>) \<and>
     banner_id data = fresh r1 \<and> is_active data"
proof -
  obtain data where
    ins: "insert_banner cast r1 (post_payload body) w
           = (Inr data, w\<lparr>calls := calls w @ [Insert (post_payload body)],
                          banners := banners w @ [data]\<rparr>)"
    and d: "banner_id data = fresh r1" "is_active data = new_is_active (post_payload body)"
    using insert_banner_served [OF assms(5,6)] by blast
  have on: "new_is_active (post_payload body)"
    using assms(4) by (simp add: post_payload_def)
  have "post_banners cast r1 rs body w =
       (Respond 200 (Banner_body data),
        w\<lparr>calls := calls w @ [Insert (post_payload body), Update_neq (fresh r1) deactivate],
          banners := banners w @ [data]\<rparr>)"
    using assms(2,3) on
    by (simp add: post_banners_def Let_def ins d update_neq_failed [OF assms(1)])
  then show ?thesis
    using d on by blast
qed

lemma put_banner_sweep_failed:
  assumes "fault rs = Some m"
    and "distinct (map banner_id (banners w))" and "B \<in> set (banners w)"
    and "fault r2 = None" and "is_active_field body = Bool True"
  shows "put_banner rs r2 (banner_id B) body w =
     (Respond 200 (Banner_body (apply_patch (now r2) (put_payload body) B)),
      w\<lparr>calls := calls w @ [Update_neq (banner_id B) deactivate,
                             Update_eq (banner_id B) (put_payload body)],
        banners := map (\<lambda>b. if banner_id b = banner_id B
                             then apply_patch (now r2) (put_payload body) b else b)
                     (banners w)\<rparr>)"
proof -
  have a: "set_is_active (put_payload body) = Some True"
    using assms(5) by (simp add: put_payload_active)
  let ?w1 = "w\<lparr>calls := calls w @ [Update_neq (banner_id B) deactivate]\<rparr>"
  have f: "filter (\<lambda>b. banner_id b = banner_id B) (banners ?w1) = [B]"
    using filter_id_distinct [OF assms(2,3)] by simp
  show ?thesis
    by (simp add: put_banner_def Let_def a update_neq_failed [OF assms(1)]
        update_eq_single_hit [OF assms(4) set_active_change [OF a] f])
qed

lemma post_banner_activate_sweep_failed:
  assumes "fault rs = Some m"
    and "distinct (map banner_id (banners w))" and "B \<in> set (banners w)"
    and "fault r2 = None"
  shows "post_banner_activate rs r2 (banner_id B) w =
     (Respond 200 (Banner_body (apply_patch (now r2) activate B)),
      w\<lparr>calls := calls w @ [Update_neq (banner_id B) deactivate,
                             Update_eq (banner_id B) activate],
        banners := map (\<lambda>b. if banner_id b = banner_id B
                             then apply_patch (now r2) activate b else b)
                     (banners w)\<rparr>)"
proof -
  let ?w1 = "w\<lparr>calls := calls w @ [Update_neq (banner_id B) deactivate]\<rparr>"
  have f: "filter (\<lambda>b. banner_id b = banner_id B) (banners ?w1) = [B]"
    using filter_id_distinct [OF assms(2,3)] by simp
  show ?thesis
    by (simp add: post_banner_activate_def Let_def update_neq_failed [OF assms(1)]
        update_eq_single_hit [OF assms(4) deactivate_neq(2) f])
qed

text \<open>
  C1. Let the ids of the banner rows be distinct (the id is the primary key) and let \<open>B\<close>
  be one of the rows. When the activate action on the id of \<open>B\<close> completes successfully,
  that is when the backend carries out both of its writes, the response is the row of
  \<open>B\<close>, now active, and a subsequent read of the banners shows the same rows as before
  with \<open>is_active\<close> true on exactly the row of \<open>B\<close> and false on every other row: some row
  is active and no two different rows are. This covers a \<open>B\<close> that was already the only
  active banner.
\<close>

theorem activate_single_active:
  assumes "distinct (map banner_id (banners w))" and "B \<in> set (banners w)"
    and "fault r1 = None" and "fault r2 = None" and "fault r3 = None"
  shows "\<exists>w' rows.
     post_banner_activate r1 r2 (banner_id B) w
       = (Respond 200 (Banner_body (apply_patch (now r2) activate B)), w') \<and>
     get_banners r3 w' = Respond 200 (Banners_body rows) \<and>
     set rows = set (banners w') \<and> length rows = length (banners w') \<and>
     map banner_id (banners w') = map banner_id (banners w) \<and>
     (\<forall>r\<in>set rows. is_active r \<longleftrightarrow> banner_id r = banner_id B) \<and>
     (\<exists>r\<in>set rows. is_active r) \<and>
     (\<forall>r\<in>set rows. \<forall>s\<in>set rows. is_active r \<longrightarrow> is_active s \<longrightarrow> r = s)"
proof -
  let ?i = "banner_id B"
  let ?rows' = "map (\<lambda>b. if banner_id b = ?i then apply_patch (now r2) activate b else b)
            (map (\<lambda>b. if banner_id b \<noteq> ?i then apply_patch (now r1) deactivate b else b)
               (banners w))"
  let ?w' = "w\<lparr>calls := calls w @ [Update_neq ?i deactivate, Update_eq ?i activate],
               banners := ?rows'\<rparr>"
  let ?read = "rev (sort_key created_at ?rows')"
  have run: "post_banner_activate r1 r2 ?i w
       = (Respond 200 (Banner_body (apply_patch (now r2) activate B)), ?w')"
    by (rule post_banner_activate_served [OF assms(1-4)])
  have get: "get_banners r3 ?w' = Respond 200 (Banners_body ?read)"
    using assms(5) by (simp add: get_banners_def)
  have set: "set ?read = set (banners ?w')" and len: "length ?read = length (banners ?w')"
    by simp_all
  have ids: "map banner_id (banners ?w') = map banner_id (banners w)"
    by (simp add: map_id_twice)
  have act: "\<forall>r\<in>set ?read. is_active r \<longleftrightarrow> banner_id r = ?i"
    using activate_rows [of _ ?i "now r2" "now r1" "banners w"] by simp
  have "apply_patch (now r2) activate B \<in> set ?rows'"
    using assms(2) by force
  then have ex: "\<exists>r\<in>set ?read. is_active r"
    by (intro bexI [of _ "apply_patch (now r2) activate B"]) simp_all
  have d': "distinct (map banner_id ?rows')"
    by (simp only: map_id_twice assms(1))
  have uniq: "\<forall>r\<in>set ?read. \<forall>s\<in>set ?read. is_active r \<longrightarrow> is_active s \<longrightarrow> r = s"
  proof (intro ballI impI)
    fix r s
    assume r: "r \<in> set ?read" and s: "s \<in> set ?read" and "is_active r" "is_active s"
    then have "banner_id r = banner_id s" using act by simp
    moreover have "r \<in> set ?rows'" "s \<in> set ?rows'" using r s by simp_all
    ultimately show "r = s" by (rule distinct_map_eq [OF d', rotated 2])
  qed
  show ?thesis
    using run get set len ids act ex uniq by blast
qed

theorem activate_single_active_witness:
  "distinct (map banner_id (banners w0)) \<and> bn 2 False \<in> set (banners w0) \<and>
   bn 1 True \<in> set (banners w0) \<and> fault served = None \<and>
   post_banner_activate served served 2 w0 =
     (Respond 200 (Banner_body ((bn 2 True)\<lparr>updated_at := 5\<rparr>)),
      \<lparr>banners = [(bn 1 False)\<lparr>updated_at := 5\<rparr>, (bn 2 True)\<lparr>updated_at := 5\<rparr>],
        calls = [Update_neq 2 deactivate, Update_eq 2 activate], console = []\<rparr>) \<and>
   (\<exists>w' rows.
     post_banner_activate served served (banner_id (bn 2 False)) w0
       = (Respond 200 (Banner_body (apply_patch (now served) activate (bn 2 False))), w') \<and>
     get_banners served w' = Respond 200 (Banners_body rows) \<and>
     set rows = set (banners w') \<and> length rows = length (banners w') \<and>
     map banner_id (banners w') = map banner_id (banners w0) \<and>
     (\<forall>r\<in>set rows. is_active r \<longleftrightarrow> banner_id r = banner_id (bn 2 False)) \<and>
     (\<exists>r\<in>set rows. is_active r) \<and>
     (\<forall>r\<in>set rows. \<forall>s\<in>set rows. is_active r \<longrightarrow> is_active s \<longrightarrow> r = s)) \<and>
   (\<exists>w' rows.
     post_banner_activate served served (banner_id (bn 1 True)) w0
       = (Respond 200 (Banner_body (apply_patch (now served) activate (bn 1 True))), w') \<and>
     get_banners served w' = Respond 200 (Banners_body rows) \<and>
     set rows = set (banners w') \<and> length rows = length (banners w') \<and>
     map banner_id (banners w') = map banner_id (banners w0) \<and>
     (\<forall>r\<in>set rows. is_active r \<longleftrightarrow> banner_id r = banner_id (bn 1 True)) \<and>
     (\<exists>r\<in>set rows. is_active r) \<and>
     (\<forall>r\<in>set rows. \<forall>s\<in>set rows. is_active r \<longrightarrow> is_active s \<longrightarrow> r = s))"
proof -
  have d: "distinct (map banner_id (banners w0))"
    and b2: "bn 2 False \<in> set (banners w0)" and b1: "bn 1 True \<in> set (banners w0)"
    and f: "fault served = None"
    by (simp_all add: evb)
  have run: "post_banner_activate served served 2 w0 =
     (Respond 200 (Banner_body ((bn 2 True)\<lparr>updated_at := 5\<rparr>)),
      \<lparr>banners = [(bn 1 False)\<lparr>updated_at := 5\<rparr>, (bn 2 True)\<lparr>updated_at := 5\<rparr>],
        calls = [Update_neq 2 deactivate, Update_eq 2 activate], console = []\<rparr>)"
    by (simp add: evb)
  show ?thesis
    using d b2 b1 f run activate_single_active [OF d b2 f f f]
      activate_single_active [OF d b1 f f f]
    by blast
qed

text \<open>
  C2, as stated, fails for the activate action and for the update that sets the active
  flag: the first call they issue is the sweep, and the write on the target row comes
  second.
\<close>

theorem sweep_then_write_counterexample:
  "calls (snd (post_banner_activate served served 2 w0))
     = [Update_neq 2 deactivate, Update_eq 2 activate] \<and>
   calls (snd (put_banner served served 2 set_active w0))
     = [Update_neq 2 deactivate, Update_eq 2 (put_payload set_active)]"
  by (simp add: evb)

text \<open>
  C2, amended. An insert with the active flag set performs the insert first and, only when
  the insert has returned a row, issues the sweep on the rows whose id differs from the id
  of that row. The update that sets the active flag to \<open>true\<close> and the activate action
  issue the sweep first, on the rows whose id differs from the id of the request, and then
  the write on the target row, whether or not the sweep succeeded.
\<close>

theorem write_order:
  "(truthy (product_field body) \<and> truthy (message_field body) \<and>
    truthy (is_active_field body) \<longrightarrow>
      calls (snd (post_banners cast r1 r2 body w)) =
        (case fst (insert_banner cast r1 (post_payload body) w) of
           Inl error \<Rightarrow> calls w @ [Insert (post_payload body)]
         | Inr data \<Rightarrow>
             calls w @ [Insert (post_payload body), Update_neq (banner_id data) deactivate])) \<and>
   (is_active_field body = Bool True \<longrightarrow>
      calls (snd (put_banner r1 r2 i body w))
        = calls w @ [Update_neq i deactivate, Update_eq i (put_payload body)]) \<and>
   calls (snd (post_banner_activate r1 r2 i w))
     = calls w @ [Update_neq i deactivate, Update_eq i activate]"
proof (intro conjI impI)
  assume "truthy (product_field body) \<and> truthy (message_field body) \<and>
    truthy (is_active_field body)"
  then show "calls (snd (post_banners cast r1 r2 body w)) =
        (case fst (insert_banner cast r1 (post_payload body) w) of
           Inl error \<Rightarrow> calls w @ [Insert (post_payload body)]
         | Inr data \<Rightarrow>
             calls w @ [Insert (post_payload body), Update_neq (banner_id data) deactivate])"
    by (simp add: post_banners_calls split: sum.splits)
next
  assume "is_active_field body = Bool True"
  then have a: "set_is_active (put_payload body) = Some True"
    by (simp add: put_payload_active)
  show "calls (snd (put_banner r1 r2 i body w))
        = calls w @ [Update_neq i deactivate, Update_eq i (put_payload body)]"
    using update_eq_single_calls [of r2 "put_payload body" i "snd (update_neq r1 deactivate i w)"]
    by (auto simp: put_banner_def Let_def a update_neq_calls split: prod.splits sum.splits)
next
  show "calls (snd (post_banner_activate r1 r2 i w))
     = calls w @ [Update_neq i deactivate, Update_eq i activate]"
    using update_eq_single_calls [of r2 activate i "snd (update_neq r1 deactivate i w)"]
    by (auto simp: post_banner_activate_def Let_def update_neq_calls split: prod.splits sum.splits)
qed

theorem write_order_witness:
  "truthy (product_field new_active) \<and> truthy (message_field new_active) \<and>
   truthy (is_active_field new_active) \<and>
   calls (snd (post_banners toy_render served served new_active w0))
     = [Insert (post_payload new_active), Update_neq 9 deactivate] \<and>
   is_active_field set_active = Bool True \<and>
   calls (snd (put_banner served served 2 set_active w0))
     = [Update_neq 2 deactivate, Update_eq 2 (put_payload set_active)] \<and>
   calls (snd (post_banner_activate served served 2 w0))
     = [Update_neq 2 deactivate, Update_eq 2 activate]"
proof -
  have h: "truthy (product_field new_active) \<and> truthy (message_field new_active) \<and>
      truthy (is_active_field new_active)"
    and a: "is_active_field set_active = Bool True"
    by (simp_all add: evb)
  have i: "fst (insert_banner toy_render served (post_payload new_active) w0)
      = Inr \<lparr>banner_id = 9, product = lit ''x'', message = lit ''y'', href = None,
             is_active = True, created_at = 5, updated_at = 5\<rparr>"
    and c: "calls w0 = []"
    by (simp_all add: evb)
  show ?thesis
    using h a
      write_order [where body = new_active and cast = toy_render and ?r1.0 = served
        and ?r2.0 = served and w = w0 and i = 2]
      write_order [where body = set_active and cast = toy_render and ?r1.0 = served
        and ?r2.0 = served and w = w0 and i = 2]
    by (simp add: i c)
qed

text \<open>
  C9, as stated, fails on the logging: the handler discards the result of the sweep, so a
  failed sweep after a successful insert writes nothing to the console. The response is
  the inserted row, and two banners are left active.
\<close>

theorem sweep_failure_unlogged_counterexample:
  "fst (post_banners toy_render served down new_active w0)
     = Respond 200 (Banner_body \<lparr>banner_id = 9, product = lit ''x'', message = lit ''y'',
         href = None, is_active = True, created_at = 5, updated_at = 5\<rparr>) \<and>
   console (snd (post_banners toy_render served down new_active w0)) = console w0 \<and>
   console w0 = [] \<and>
   map is_active (banners (snd (post_banners toy_render served down new_active w0)))
     = [True, False, True]"
  by (simp add: evb)

text \<open>
  C9, amended. Whenever the sweep fails and the triggering write succeeds (the sweep follows
  the insert, and precedes the update of the target row in the update and activate
  handlers), the response is 200 with the written row; the failure of the sweep is
  discarded: nothing is written to the console, no error response is sent, and the other
  rows stay as they were.
\<close>

theorem sweep_failure_not_surfaced:
  assumes "fault rs = Some m"
  shows
    "(truthy (product_field body) \<and> truthy (message_field body) \<and>
      truthy (is_active_field body) \<and> fault r1 = None \<and>
      fresh r1 \<notin> banner_id ` set (banners w) \<longrightarrow>
        (\<exists>data. fst (post_banners cast r1 rs body w) = Respond 200 (Banner_body data) \<and>
           banner_id data = fresh r1 \<and> is_active data \<and>
           banners (snd (post_banners cast r1 rs body w)) = banners w @ [data] \<and>
           console (snd (post_banners cast r1 rs body w)) = console w)) \<and>
     (distinct (map banner_id (banners w)) \<and> B \<in> set (banners w) \<and> fault r2 = None \<longrightarrow>
        (is_active_field body = Bool True \<longrightarrow>
           fst (put_banner rs r2 (banner_id B) body w)
             = Respond 200 (Banner_body (apply_patch (now r2) (put_payload body) B)) \<and>
           banners (snd (put_banner rs r2 (banner_id B) body w))
             = map (\<lambda>b. if banner_id b = banner_id B
                        then apply_patch (now r2) (put_payload body) b else b) (banners w) \<and>
           console (snd (put_banner rs r2 (banner_id B) body w)) = console w) \<and>
        fst (post_banner_activate rs r2 (banner_id B) w)
          = Respond 200 (Banner_body (apply_patch (now r2) activate B)) \<and>
        banners (snd (post_banner_activate rs r2 (banner_id B) w))
          = map (\<lambda>b. if banner_id b = banner_id B
                     then apply_patch (now r2) activate b else b) (banners w) \<and>
        console (snd (post_banner_activate rs r2 (banner_id B) w)) = console w)"
proof (intro conjI impI)
  assume h: "truthy (product_field body) \<and> truthy (message_field body) \<and>
      truthy (is_active_field body) \<and> fault r1 = None \<and>
      fresh r1 \<notin> banner_id ` set (banners w)"
  then obtain data where
    "post_banners cast r1 rs body w =
       (Respond 200 (Banner_body data),
        w\<lparr>calls := calls w @ [Insert (post_payload body), Update_neq (fresh r1) deactivate],
          banners := banners w @ [data]\<rparr>)"
    "banner_id data = fresh r1" "is_active data"
    using post_banners_sweep_failed [OF assms, of body r1 w cast] by blast
  then show "\<exists>data. fst (post_banners cast r1 rs body w) = Respond 200 (Banner_body data) \<and>
           banner_id data = fresh r1 \<and> is_active data \<and>
           banners (snd (post_banners cast r1 rs body w)) = banners w @ [data] \<and>
           console (snd (post_banners cast r1 rs body w)) = console w"
    by (intro exI [of _ data]) simp
next
  assume h: "distinct (map banner_id (banners w)) \<and> B \<in> set (banners w) \<and> fault r2 = None"
    and b: "is_active_field body = Bool True"
  note e = put_banner_sweep_failed [OF assms, of w B r2 body]
  show "fst (put_banner rs r2 (banner_id B) body w)
             = Respond 200 (Banner_body (apply_patch (now r2) (put_payload body) B))"
    using e h b by simp
  show "banners (snd (put_banner rs r2 (banner_id B) body w))
             = map (\<lambda>b. if banner_id b = banner_id B
                        then apply_patch (now r2) (put_payload body) b else b) (banners w)"
    using e h b by simp
  show "console (snd (put_banner rs r2 (banner_id B) body w)) = console w"
    using e h b by simp
next
  assume h: "distinct (map banner_id (banners w)) \<and> B \<in> set (banners w) \<and> fault r2 = None"
  note e = post_banner_activate_sweep_failed [OF assms, of w B r2]
  show "fst (post_banner_activate rs r2 (banner_id B) w)
          = Respond 200 (Banner_body (apply_patch (now r2) activate B))"
    using e h by simp
  show "banners (snd (post_banner_activate rs r2 (banner_id B) w))
          = map (\<lambda>b. if banner_id b = banner_id B
                     then apply_patch (now r2) activate b else b) (banners w)"
    using e h by simp
  show "console (snd (post_banner_activate rs r2 (banner_id B) w)) = console w"
    using e h by simp
qed

theorem sweep_failure_not_surfaced_witness:
  "fault down = Some (lit ''upstream down'') \<and>
   truthy (product_field new_active) \<and> truthy (message_field new_active) \<and>
   truthy (is_active_field new_active) \<and> fault served = None \<and>
   fresh served \<notin> banner_id ` set (banners w0) \<and>
   (\<exists>data. fst (post_banners toy_render served down new_active w0)
              = Respond 200 (Banner_body data) \<and>
           banner_id data = fresh served \<and> is_active data \<and>
           banners (snd (post_banners toy_render served down new_active w0))
             = banners w0 @ [data] \<and>
           console (snd (post_banners toy_render served down new_active w0)) = console w0) \<and>
   distinct (map banner_id (banners w0)) \<and> bn 2 False \<in> set (banners w0) \<and>
   is_active_field set_active = Bool True \<and>
   put_banner down served 2 set_active w0 =
     (Respond 200 (Banner_body ((bn 2 True)\<lparr>updated_at := 5\<rparr>)),
      \<lparr>banners = [bn 1 True, (bn 2 True)\<lparr>updated_at := 5\<rparr>],
        calls = [Update_neq 2 deactivate, Update_eq 2 (put_payload set_active)],
        console = []\<rparr>) \<and>
   post_banner_activate down served 2 w0 =
     (Respond 200 (Banner_body ((bn 2 True)\<lparr>updated_at := 5\<rparr>)),
      \<lparr>banners = [bn 1 True, (bn 2 True)\<lparr>updated_at := 5\<rparr>],
        calls = [Update_neq 2 deactivate, Update_eq 2 activate], console = []\<rparr>)"
proof -
  have dn: "fault down = Some (lit ''upstream down'')"
    by (simp add: evb)
  have h: "truthy (product_field new_active) \<and> truthy (message_field new_active) \<and>
      truthy (is_active_field new_active) \<and> fault served = None \<and>
      fresh served \<notin> banner_id ` set (banners w0)"
    by (simp add: evb)
  have k: "distinct (map banner_id (banners w0)) \<and> bn 2 False \<in> set (banners w0) \<and>
      fault served = None"
    and a: "is_active_field set_active = Bool True"
    by (simp_all add: evb)
  have p: "put_banner down served 2 set_active w0 =
     (Respond 200 (Banner_body ((bn 2 True)\<lparr>updated_at := 5\<rparr>)),
      \<lparr>banners = [bn 1 True, (bn 2 True)\<lparr>updated_at := 5\<rparr>],
        calls = [Update_neq 2 deactivate, Update_eq 2 (put_payload set_active)],
        console = []\<rparr>)"
    and q: "post_banner_activate down served 2 w0 =
     (Respond 200 (Banner_body ((bn 2 True)\<lparr>updated_at := 5\<rparr>)),
      \<lparr>banners = [bn 1 True, (bn 2 True)\<lparr>updated_at := 5\<rparr>],
        calls = [Update_neq 2 deactivate, Update_eq 2 activate], console = []\<rparr>)"
    by (simp_all add: evb)
  show ?thesis
    using dn h k a p q
      sweep_failure_not_surfaced [OF dn, where body = new_active and ?r1.0 = served
        and w = w0 and cast = toy_render and B = "bn 2 False" and ?r2.0 = served]
    by blast
qed

text \<open>
  C10. When the activate action is called with an id that matches no banner row and the
  backend carries out the sweep, the sweep comes first and deactivates every row, then the
  update of the target fails: the response is a 500 error, the rows are the same rows with
  \<open>is_active\<close> false on each, and if a banner was active before, the table has changed.
\<close>

theorem activate_unknown_id:
  assumes "i \<notin> banner_id ` set (banners w)" and "fault r1 = None"
  shows "\<exists>err w'.
     post_banner_activate r1 r2 i w = (Respond 500 (Upstream_error err), w') \<and>
     calls w' = calls w @ [Update_neq i deactivate, Update_eq i activate] \<and>
     map banner_id (banners w') = map banner_id (banners w) \<and>
     (\<forall>b\<in>set (banners w'). \<not> is_active b) \<and>
     ((\<exists>b\<in>set (banners w). is_active b) \<longrightarrow> banners w' \<noteq> banners w)"
proof -
  let ?rows' = "map (\<lambda>b. if banner_id b \<noteq> i then apply_patch (now r1) deactivate b else b) (banners w)"
  let ?w1 = "w\<lparr>calls := calls w @ [Update_neq i deactivate], banners := ?rows'\<rparr>"
  let ?w' = "?w1\<lparr>calls := calls ?w1 @ [Update_eq i activate]\<rparr>"
  let ?err = "case fault r2 of Some m \<Rightarrow> Backend m | None \<Rightarrow> Not_single_row"
  have s: "update_neq r1 deactivate i w = (None, ?w1)"
    using assms(2) by (simp add: update_neq_served)
  have miss: "i \<notin> banner_id ` set (banners ?w1)"
    using assms(1) by (auto simp: image_iff)
  have run: "post_banner_activate r1 r2 i w = (Respond 500 (Upstream_error ?err), ?w')"
    unfolding post_banner_activate_def s
    by (simp add: update_eq_single_miss [OF miss])
  have all: "\<forall>b\<in>set ?rows'. \<not> is_active b"
    using assms(1) by (auto simp: image_iff)
  have ids: "map banner_id ?rows' = map banner_id (banners w)"
    by (induction "banners w") auto
  have changed: "(\<exists>b\<in>set (banners w). is_active b) \<longrightarrow> ?rows' \<noteq> banners w"
    using all by metis
  show ?thesis
    using run all ids changed by (intro exI [of _ ?err] exI [of _ ?w']) simp
qed

theorem activate_unknown_id_witness:
  "3 \<notin> banner_id ` set (banners w0) \<and> fault served = None \<and>
   post_banner_activate served served 3 w0 =
     (Respond 500 (Upstream_error Not_single_row),
      \<lparr>banners = [(bn 1 False)\<lparr>updated_at := 5\<rparr>, (bn 2 False)\<lparr>updated_at := 5\<rparr>],
        calls = [Update_neq 3 deactivate, Update_eq 3 activate], console = []\<rparr>) \<and>
   (\<exists>err w'.
     post_banner_activate served served 3 w0 = (Respond 500 (Upstream_error err), w') \<and>
     calls w' = calls w0 @ [Update_neq 3 deactivate, Update_eq 3 activate] \<and>
     map banner_id (banners w') = map banner_id (banners w0) \<and>
     (\<forall>b\<in>set (banners w'). \<not> is_active b) \<and>
     ((\<exists>b\<in>set (banners w0). is_active b) \<longrightarrow> banners w' \<noteq> banners w0)) \<and>
   (\<exists>b\<in>set (banners w0). is_active b)"
proof -
  have m: "3 \<notin> banner_id ` set (banners w0)" and f: "fault served = None"
    and a: "\<exists>b\<in>set (banners w0). is_active b"
    by (simp_all add: evb)
  have run: "post_banner_activate served served 3 w0 =
     (Respond 500 (Upstream_error Not_single_row),
      \<lparr>banners = [(bn 1 False)\<lparr>updated_at := 5\<rparr>, (bn 2 False)\<lparr>updated_at := 5\<rparr>],
        calls = [Update_neq 3 deactivate, Update_eq 3 activate], console = []\<rparr>)"
    by (simp add: evb)
  show ?thesis
    using m f a run activate_unknown_id [OF m f, of served] by blast
qed

end
